theory Spec2Isabelle
  imports Main "HOL-Library.AList" "HOL-Library.Sublist"
begin

section \<open>JavaScript values of the configuration\<close>

text \<open>
  The configuration objects of \<^verbatim>\<open>rest-hapi.js\<close> (\<^verbatim>\<open>defaultConfig\<close>,
  \<^verbatim>\<open>options.config\<close>, the argument of \<^verbatim>\<open>request.connect\<close>) are plain JavaScript
  objects with free-form keys. They are modelled as trees: a plain object is an association
  list in property order, numbers are integers. Arrays, functions and class instances do not
  occur in the values modelled here, and a property is an own property: names inherited from
  \<^verbatim>\<open>Object.prototype\<close> are not modelled.
\<close>

datatype jval =
    JUndefined
  | JNull
  | JBool bool
  | JNum int
  | JStr string
  | JObj "(string \<times> jval) list"

text \<open>JavaScript truthiness, as used by \<^verbatim>\<open>if (x)\<close>, \<^verbatim>\<open>!x\<close> and \<^verbatim>\<open>x && y\<close>.\<close>

fun truthy :: "jval \<Rightarrow> bool" where
  "truthy JUndefined = False"
| "truthy JNull = False"
| "truthy (JBool b) = b"
| "truthy (JNum n) = (n \<noteq> 0)"
| "truthy (JStr s) = (s \<noteq> [])"
| "truthy (JObj kvs) = True"

text \<open>
  \<^verbatim>\<open>o.k\<close> for a value \<open>o\<close> that is not \<^verbatim>\<open>undefined\<close> or \<^verbatim>\<open>null\<close>: the own property,
  or \<^verbatim>\<open>undefined\<close>.
\<close>

fun get_prop :: "jval \<Rightarrow> string \<Rightarrow> jval" where
  "get_prop (JObj kvs) k = (case map_of kvs k of Some v \<Rightarrow> v | None \<Rightarrow> JUndefined)"
| "get_prop v k = JUndefined"

text \<open>Thrown values: \<^verbatim>\<open>new Error(msg)\<close> and the engine's \<^verbatim>\<open>TypeError\<close>.\<close>

datatype exn = Error string | TypeError string

fun message :: "exn \<Rightarrow> string" where
  "message (Error m) = m"
| "message (TypeError m) = m"

text \<open>
  \<^verbatim>\<open>o.k\<close> for any \<open>o\<close>: reading a property of \<^verbatim>\<open>undefined\<close> or \<^verbatim>\<open>null\<close> throws a
  \<^verbatim>\<open>TypeError\<close> (the model's message names the property read).
\<close>

fun read_prop :: "jval \<Rightarrow> string \<Rightarrow> exn + jval" where
  "read_prop JUndefined k = Inl (TypeError k)"
| "read_prop JNull k = Inl (TypeError k)"
| "read_prop v k = Inr (get_prop v k)"

text \<open>
  Decimal rendering of integers, for \<^verbatim>\<open>String(n)\<close> (JavaScript renders a number in this
  way up to 21 digits).
\<close>

fun string_of_nat :: "nat \<Rightarrow> string" where
  "string_of_nat n =
     (if n < 10 then [''0123456789'' ! n]
      else string_of_nat (n div 10) @ [''0123456789'' ! (n mod 10)])"

definition string_of_int :: "int \<Rightarrow> string" where
  "string_of_int i = (if i < 0 then CHR ''-'' # string_of_nat (nat (- i)) else string_of_nat (nat i))"

text \<open>
  \<^verbatim>\<open>String(v)\<close>: the conversion applied to a computed property key (\<^verbatim>\<open>o[v]\<close>) and inside a
  template literal.
\<close>

fun to_string :: "jval \<Rightarrow> string" where
  "to_string JUndefined = ''undefined''"
| "to_string JNull = ''null''"
| "to_string (JBool b) = (if b then ''true'' else ''false'')"
| "to_string (JNum n) = string_of_int n"
| "to_string (JStr s) = s"
| "to_string (JObj kvs) = ''[object Object]''"

text \<open>\<^verbatim>\<open>s.includes(pat)\<close>: \<open>pat\<close> occurs in \<open>s\<close> as a contiguous substring.\<close>

fun str_includes :: "string \<Rightarrow> string \<Rightarrow> bool" where
  "str_includes [] pat = (pat = [])"
| "str_includes (c # cs) pat = (prefix pat (c # cs) \<or> str_includes cs pat)"

subsection \<open>The deep merge \<^verbatim>\<open>extend(true, target, source)\<close>\<close>

text \<open>
  \<^verbatim>\<open>extend\<close> is the npm package of that name (jQuery's \<^verbatim>\<open>extend\<close>), which the module
  imports. For every property \<open>name\<close> of the source, in order, with \<open>copy\<close> its value:
  a plain-object \<open>copy\<close> is merged recursively into the target's own \<open>name\<close> when that is
  a plain object and into a fresh \<^verbatim>\<open>{}\<close> otherwise; any other \<open>copy\<close> except
  \<^verbatim>\<open>undefined\<close> replaces the target's property; \<^verbatim>\<open>undefined\<close> is skipped. The target is
  mutated and returned.
\<close>

fun clone_of :: "(string \<times> jval) list \<Rightarrow> string \<Rightarrow> (string \<times> jval) list" where
  "clone_of target k = (case map_of target k of Some (JObj src) \<Rightarrow> src | _ \<Rightarrow> [])"

function extend_obj :: "(string \<times> jval) list \<Rightarrow> (string \<times> jval) list \<Rightarrow> (string \<times> jval) list" where
  "extend_obj target [] = target"
| "extend_obj target ((k, JObj c) # rest) =
     extend_obj (AList.update k (JObj (extend_obj (clone_of target k) c)) target) rest"
| "extend_obj target ((k, JUndefined) # rest) = extend_obj target rest"
| "extend_obj target ((k, JNull) # rest) = extend_obj (AList.update k JNull target) rest"
| "extend_obj target ((k, JBool b) # rest) = extend_obj (AList.update k (JBool b) target) rest"
| "extend_obj target ((k, JNum n) # rest) = extend_obj (AList.update k (JNum n) target) rest"
| "extend_obj target ((k, JStr s) # rest) = extend_obj (AList.update k (JStr s) target) rest"
  by pat_completeness auto
termination
  by (relation "measure (\<lambda>(t, s). size (JObj s))") auto

text \<open>
  The value held by the variable \<open>target\<close> after the statement
  \<^verbatim>\<open>extend(true, target, source)\<close> (the module never uses the value returned): an object is
  merged in place; for a target that is not an object \<^verbatim>\<open>extend\<close> works on a fresh \<^verbatim>\<open>{}\<close>
  of its own and the variable is unchanged. A source that is \<^verbatim>\<open>undefined\<close>, \<^verbatim>\<open>null\<close>, a
  boolean or a number has no enumerable property and contributes nothing (a string source,
  whose characters would be copied by index, is not modelled).
\<close>

fun own_props :: "jval \<Rightarrow> (string \<times> jval) list" where
  "own_props (JObj kvs) = kvs"
| "own_props v = []"

fun extend_deep :: "jval \<Rightarrow> jval \<Rightarrow> jval" where
  "extend_deep (JObj target) source = JObj (extend_obj target (own_props source))"
| "extend_deep target source = target"

text \<open>A parameter with a default value, \<^verbatim>\<open>(x = d) => ...\<close>: \<open>d\<close> when the argument is \<^verbatim>\<open>undefined\<close>.\<close>

definition default_arg :: "jval \<Rightarrow> jval \<Rightarrow> jval" where
  "default_arg v d = (if v = JUndefined then d else v)"

text \<open>
  \<^verbatim>\<open>Object.assign(target, source)\<close>: the shallow copy of the source's own properties, in
  order, \<^verbatim>\<open>undefined\<close> values included (as for \<^verbatim>\<open>extend\<close>, a string source is not
  modelled). \<^verbatim>\<open>_.omit(o, [k])\<close>: a copy of \<open>o\<close> without \<open>k\<close>, and \<^verbatim>\<open>{}\<close> for a value that
  is not an object.
\<close>

fun assign_all :: "(string \<times> jval) list \<Rightarrow> (string \<times> jval) list \<Rightarrow> (string \<times> jval) list" where
  "assign_all target [] = target"
| "assign_all target ((k, v) # rest) = assign_all (AList.update k v target) rest"

fun object_assign :: "jval \<Rightarrow> jval \<Rightarrow> jval" where
  "object_assign (JObj target) source = JObj (assign_all target (own_props source))"
| "object_assign target source = target"

fun omit :: "jval \<Rightarrow> string \<Rightarrow> jval" where
  "omit (JObj kvs) k = JObj (AList.delete k kvs)"
| "omit v k = JObj []"

section \<open>State of the module, of the requests and of the collaborators\<close>

text \<open>
  The schema registry maps a model name to its definition, of which the module reads the
  \<^verbatim>\<open>Schema\<close> property only; a driver schema is opaque and identified by a number.
\<close>

datatype schema_def = SchemaDef (Schema: nat)

type_synonym registry = "(string \<times> schema_def) list"

datatype validator = Joi | HostValidator nat

record server =
  realm_validator :: "validator option"

text \<open>
  The options of \<^verbatim>\<open>register\<close>: \<^verbatim>\<open>options.config\<close>, and \<^verbatim>\<open>options.pre\<close> when it is an array
  (\<open>None\<close> when \<^verbatim>\<open>Array.isArray(options.pre)\<close> is false).
\<close>

record plugin_options =
  opt_config :: jval
  opt_pre :: "string list option"

text \<open>
  Objects with identity live in a store, each at the address it was allocated at; two
  references are the same object exactly when the addresses are equal.
  \<^item> a driver connection, as \<^verbatim>\<open>mongoose.createConnection(URI, options)\<close> resolved it;
  \<^item> a connection entry \<^verbatim>\<open>{name, models, connection}\<close> of \<^verbatim>\<open>request.connections\<close>; its
    \<^verbatim>\<open>connection\<close> field is the address of the driver connection, or \<open>None\<close> for a falsy value,
    and \<open>ce_models\<close> holds the own properties of its \<^verbatim>\<open>models\<close>;
  \<^item> a bound model, as \<^verbatim>\<open>connection.model(name, Schema, name)\<close> returned it; \<open>bm_with\<close> is
    its own \<^verbatim>\<open>with\<close> property, a closure \<^verbatim>\<open>conn => getModel(name, conn, request)\<close> represented by
    the \<open>name\<close> and the request it captured.
\<close>

record handle =
  h_uri :: jval
  h_options :: jval

record conn_entry =
  ce_name :: jval
  ce_models :: "string \<rightharpoonup> nat"
  ce_connection :: "nat option"

record bound_model =
  bm_name :: string
  bm_schema :: nat
  bm_collection :: string
  bm_connection :: nat
  bm_with :: "(string \<times> nat) option"

text \<open>
  The model cache \<^verbatim>\<open>connection.models\<close> is a plain object (\<^verbatim>\<open>models: {}\<close>, line 270) that is
  read with a computed name (\<^verbatim>\<open>connection.models[name]\<close>, lines 220 and 228). Such a read
  yields the own property when there is one, and otherwise what the object inherits from
  \<^verbatim>\<open>Object.prototype\<close>. So the object that \<^verbatim>\<open>spawnModel\<close> returns is one of:
  \<^item> \<open>ModelAt m\<close>, the bound model at the address \<open>m\<close>;
  \<^item> \<open>Member n\<close>, the function \<^verbatim>\<open>Object.prototype[n]\<close> for one of the names that
    \<^verbatim>\<open>Object.prototype\<close> defines (\<open>Member ''constructor''\<close> is the function \<^verbatim>\<open>Object\<close>);
  \<^item> \<open>ObjectPrototype\<close>, the object \<^verbatim>\<open>Object.prototype\<close> itself, which the accessor
    \<^verbatim>\<open>__proto__\<close> returns for a plain object;
  \<^item> \<open>ClosureAt a\<close>, a closure \<^verbatim>\<open>conn => getModel(name, conn, request)\<close> allocated at \<open>a\<close>, once
    \<^verbatim>\<open>getModel\<close> has assigned one to \<^verbatim>\<open>Object.prototype.with\<close> (see \<open>assign_with\<close> below).
  All of them are truthy, and two references are the same object exactly when they are equal.
\<close>

datatype objref = ModelAt nat | Member string | ObjectPrototype | ClosureAt nat

definition object_prototype_members :: "string list" where
  "object_prototype_members =
     [''constructor'', ''__defineGetter__'', ''__defineSetter__'', ''hasOwnProperty'',
      ''__lookupGetter__'', ''__lookupSetter__'', ''isPrototypeOf'', ''propertyIsEnumerable'',
      ''toString'', ''valueOf'', ''toLocaleString'']"

text \<open>
  A request, after the \<^verbatim>\<open>onRequest\<close> hook: \<^verbatim>\<open>request.connections\<close>, from property name to
  the address of the entry. (\<^verbatim>\<open>request.models\<close> is set to \<^verbatim>\<open>{}\<close> and never read or written
  again; \<^verbatim>\<open>request.connect\<close> and \<^verbatim>\<open>request.model\<close> are the functions \<open>dbConnect\<close> and
  \<open>getModel\<close> below, applied to the request.) Requests are numbered; the functions below
  are applied to requests that have passed the hook, and to a driver that is there.
  \<^verbatim>\<open>request.connections\<close> is a plain object too, but what it inherits from
  \<^verbatim>\<open>Object.prototype\<close> has no \<^verbatim>\<open>connection\<close> property, and the module reads a connection only
  through the tests \<^verbatim>\<open>!c || !c.connection\<close> (line 194) and \<^verbatim>\<open>c && c.connection\<close> (line 258):
  an inherited value behaves there as no entry, so the own properties suffice. (A connection
  stored under the name \<^verbatim>\<open>__proto__\<close>, which would become the prototype of
  \<^verbatim>\<open>request.connections\<close>, is not modelled apart from the lookup under that name.)
\<close>

record request =
  connections :: "string \<rightharpoonup> nat"

text \<open>Calls that leave the module, and log lines, in the order they happen.\<close>

datatype event =
    LogError string
  | LogWarn string
  | LogInfo string
  | LogLog string
  | LogActionStart string jval
  | ServerValidator validator
  | ServerExt string
  | ServerMethod string
  | ModelGenerator jval
  | CreateConnection jval jval
  | ConnectionModel nat string nat string
  | RegisterSwagger jval
  | RegisterMrHorse jval
  | LoadPolicies jval
  | RestHelperFactory
  | RestGenerateRoutes string
  | ApiGenerator jval

text \<open>
  The state: \<^verbatim>\<open>internals\<close>, the exported surface, the options object that the closures of
  the registration captured, the requests, the store and the trace.
  \<^verbatim>\<open>module.exports.config\<close> is \<^verbatim>\<open>defaultConfig\<close> itself when the module is loaded, and
  \<^verbatim>\<open>register\<close> assigns \<^verbatim>\<open>defaultConfig\<close> to it again: the two names denote one object, the
  field \<open>config\<close>. \<open>None\<close> for a registry is \<^verbatim>\<open>undefined\<close>.
  The last two fields hold the \<^verbatim>\<open>with\<close> properties that \<^verbatim>\<open>getModel\<close> has assigned to objects
  that are not models: \<open>prototype_with\<close> is \<^verbatim>\<open>Object.prototype.with\<close> (the address of the
  closure, and the \<open>name\<close> and the request it captured; \<open>None\<close> as long as
  \<^verbatim>\<open>Object.prototype\<close> has no such property), \<open>function_with\<close> is the own \<^verbatim>\<open>with\<close> of the
  functions \<open>Member n\<close> and \<open>ClosureAt a\<close>. The configuration values keep being modelled by
  their own properties (see the first section): that \<^verbatim>\<open>extend\<close> and \<^verbatim>\<open>_.omit\<close> would copy an
  enumerable \<^verbatim>\<open>Object.prototype.with\<close> into the configuration objects, and the loop of
  \<^verbatim>\<open>generateRoutes\<close> visit it, is not modelled.
\<close>

record state =
  modelsGenerated :: bool
  globalSchemas :: "registry option"
  pre :: "string list"
  config :: jval
  exported_schema :: "registry option"
  exported_joi :: "validator option"
  exported_server :: "server option"
  exported_logger :: "(string \<times> jval) option"
  plugin_config :: jval
  globals_mongoose :: bool
  requests :: "nat \<Rightarrow> request"
  handles :: "nat \<rightharpoonup> handle"
  entries :: "nat \<rightharpoonup> conn_entry"
  models :: "nat \<rightharpoonup> bound_model"
  next_addr :: nat
  trace :: "event list"
  prototype_with :: "(nat \<times> string \<times> nat) option"
  function_with :: "objref \<rightharpoonup> string \<times> nat"

text \<open>
  What the module does not decide: the directory of the module and Node's \<^verbatim>\<open>path.join\<close>
  and \<^verbatim>\<open>String.prototype.replace\<close>; the outcome of the schema build
  (\<^verbatim>\<open>modelGenerator(mongoose, Log, config)\<close>: a registry, or a thrown value) and of
  \<^verbatim>\<open>mongoose.createConnection\<close> (\<open>None\<close>: a connection is returned); and whether any other
  call to the host framework or to a collaborator throws. Each outcome may depend on the
  trace so far and on the arguments.
\<close>

record env =
  dirname :: string
  path_join :: "string \<Rightarrow> string \<Rightarrow> string"
  str_replace :: "string \<Rightarrow> string \<Rightarrow> jval \<Rightarrow> string"
  modelGenerator :: "event list \<Rightarrow> jval \<Rightarrow> exn + registry"
  createConnection :: "event list \<Rightarrow> jval \<Rightarrow> jval \<Rightarrow> exn option"
  ext_call :: "event list \<Rightarrow> event \<Rightarrow> exn option"

definition emit :: "event \<Rightarrow> state \<Rightarrow> state" where
  "emit ev s = s\<lparr>trace := trace s @ [ev]\<rparr>"

definition ext :: "env \<Rightarrow> event \<Rightarrow> state \<Rightarrow> (exn + unit) \<times> state" where
  "ext E ev s =
     (case ext_call E (trace s) ev of
        None \<Rightarrow> (Inr (), emit ev s)
      | Some e \<Rightarrow> (Inl e, emit ev s))"

text \<open>Sequencing: a thrown value ends the function, with the state reached so far.\<close>

definition and_then ::
  "(exn + 'a) \<times> state \<Rightarrow> ('a \<Rightarrow> state \<Rightarrow> (exn + 'b) \<times> state) \<Rightarrow> (exn + 'b) \<times> state" where
  "and_then m f = (case m of (Inl e, s) \<Rightarrow> (Inl e, s) | (Inr x, s) \<Rightarrow> f x s)"

section \<open>The functions of \<^verbatim>\<open>rest-hapi.js\<close>\<close>

subsection \<open>\<^verbatim>\<open>getLogger\<close>\<close>

text \<open>
  Merges \<^verbatim>\<open>module.exports.config\<close> into \<^verbatim>\<open>defaultConfig\<close> (one object, see above) and
  returns a logger with the label and the configured level.
\<close>

definition getLogger :: "string \<Rightarrow> state \<Rightarrow> (string \<times> jval) \<times> state" where
  "getLogger label s =
     ((label, get_prop (extend_deep (config s) (config s)) ''loglevel''),
      s\<lparr>config := extend_deep (config s) (config s)\<rparr>)"

subsection \<open>\<^verbatim>\<open>registerHapiSwagger\<close>, \<^verbatim>\<open>registerMrHorse\<close>, \<^verbatim>\<open>generateRoutes\<close>\<close>

text \<open>
  The option object of the documentation plugin is computed from the configuration and
  handed to \<^verbatim>\<open>server.register\<close>; the call is recorded with that configuration.
\<close>

definition registerHapiSwagger :: "env \<Rightarrow> jval \<Rightarrow> state \<Rightarrow> (exn + unit) \<times> state" where
  "registerHapiSwagger E cfg s =
     and_then (ext E (RegisterSwagger cfg) s)
       (\<lambda>_ s1. (Inr (), emit (LogInfo ''hapi-swagger plugin registered'') s1))"

text \<open>The directory computed into \<^verbatim>\<open>policyPath\<close> (lines 291 to 304).\<close>

definition policyPath :: "env \<Rightarrow> jval \<Rightarrow> jval" where
  "policyPath E cfg =
     (if truthy (get_prop cfg ''enablePolicies'') then
        (if get_prop cfg ''absolutePolicyPath'' = JBool True then get_prop cfg ''policyPath''
         else JStr (str_replace E (dirname E) (path_join E ''node_modules'' ''rest-hapi'')
                      (get_prop cfg ''policyPath'')))
      else JStr (path_join E (dirname E) ''/policies''))"

definition registerMrHorse :: "env \<Rightarrow> jval \<Rightarrow> state \<Rightarrow> (exn + unit) \<times> state" where
  "registerMrHorse E cfg s =
     and_then (ext E (RegisterMrHorse (policyPath E cfg)) s)
       (\<lambda>_ s1.
          and_then
            (if truthy (get_prop cfg ''enablePolicies'')
             then ext E (LoadPolicies (JStr (path_join E (dirname E) ''/policies''))) s1
             else (Inr (), s1))
            (\<lambda>_ s2. (Inr (), emit (LogInfo ''MrHorse plugin registered'') s2)))"

text \<open>
  The loop \<^verbatim>\<open>for (const modelKey in models)\<close> of \<^verbatim>\<open>generateRoutes\<close>, over the keys in
  order; over \<^verbatim>\<open>undefined\<close> it does not iterate.
\<close>

fun generateRoutes_loop :: "env \<Rightarrow> string list \<Rightarrow> state \<Rightarrow> (exn + unit) \<times> state" where
  "generateRoutes_loop E [] s = (Inr (), s)"
| "generateRoutes_loop E (modelKey # rest) s =
     and_then (ext E (RestGenerateRoutes modelKey) s) (\<lambda>_ s1. generateRoutes_loop E rest s1)"

definition generateRoutes :: "env \<Rightarrow> registry option \<Rightarrow> jval \<Rightarrow> state \<Rightarrow> (exn + unit) \<times> state" where
  "generateRoutes E schema cfg s =
     and_then (ext E RestHelperFactory s)
       (\<lambda>_ s1.
          and_then
            (generateRoutes_loop E (case schema of None \<Rightarrow> [] | Some reg \<Rightarrow> map fst reg) s1)
            (\<lambda>_ s2. ext E (ApiGenerator cfg) s2))"

subsection \<open>\<^verbatim>\<open>register\<close>\<close>

text \<open>Lines 65 to 73: the server is exported and the validator is chosen.\<close>

definition register_validator :: "env \<Rightarrow> server \<Rightarrow> state \<Rightarrow> (exn + unit) \<times> state" where
  "register_validator E srv s =
     (case realm_validator srv of
        None \<Rightarrow>
          and_then (ext E (ServerValidator Joi) (s\<lparr>exported_server := Some srv\<rparr>))
            (\<lambda>_ s1. (Inr (), s1\<lparr>exported_joi := Some Joi\<rparr>))
      | Some v \<Rightarrow> (Inr (), s\<lparr>exported_server := Some srv, exported_joi := Some v\<rparr>))"

text \<open>
  Lines 75 to 111: the configuration merge, the logger, the closures over \<^verbatim>\<open>options\<close>
  (\<open>plugin_config\<close> is the \<^verbatim>\<open>options.config\<close> they captured) and their registration with the
  server, and \<^verbatim>\<open>internals.pre\<close>.
\<close>

definition register_setup :: "env \<Rightarrow> plugin_options \<Rightarrow> state \<Rightarrow> (exn + unit) \<times> state" where
  "register_setup E options s =
     (let s1 = s\<lparr>config := extend_deep (config s) (opt_config options)\<rparr>;
          s2 = (snd (getLogger ''api'' s1))
                 \<lparr>exported_logger := Some (fst (getLogger ''api'' s1)),
                  plugin_config := opt_config options\<rparr>
      in and_then (ext E (ServerExt ''onRequest'') s2)
           (\<lambda>_ s3.
              and_then
                (ext E (ServerMethod ''dbConnect'')
                   (case opt_pre options of None \<Rightarrow> s3 | Some p \<Rightarrow> s3\<lparr>pre := p\<rparr>))
                (\<lambda>_ s4. (Inr (), emit (LogActionStart ''Initializing Server'' JUndefined) s4))))"

text \<open>
  Lines 113 to 131: the value of the local variable \<^verbatim>\<open>schema\<close>. The build is invoked only
  when \<^verbatim>\<open>internals.modelsGenerated\<close> is false; a thrown value whose message includes
  \<^verbatim>\<open>no such file\<close> is logged and \<^verbatim>\<open>schema\<close> stays \<^verbatim>\<open>undefined\<close>, any other is thrown again.
\<close>

definition policies_missing :: string where
  "policies_missing =
     ''The policies directory provided does not exist. '' @
     ''Try setting the '' @ [CHR 0x27] @ ''policyPath'' @ [CHR 0x27] @ '' property of the config file.''"

definition register_schema :: "env \<Rightarrow> state \<Rightarrow> (exn + registry option) \<times> state" where
  "register_schema E s =
     (if modelsGenerated s then (Inr (globalSchemas s), s)
      else
        (case modelGenerator E (trace s) (config s) of
           Inr schema \<Rightarrow> (Inr (Some schema), emit (ModelGenerator (config s)) s)
         | Inl err \<Rightarrow>
             (if str_includes (message err) ''no such file''
              then (Inr None,
                    emit (LogError policies_missing) (emit (ModelGenerator (config s)) s))
              else (Inl err, emit (ModelGenerator (config s)) s))))"

text \<open>Lines 133 to 142: the registry is stored, then the plugins and the routes.\<close>

definition register_finish :: "env \<Rightarrow> registry option \<Rightarrow> state \<Rightarrow> (exn + unit) \<times> state" where
  "register_finish E schema s =
     and_then
       (if \<not> truthy (get_prop (config s) ''disableSwagger'')
        then registerHapiSwagger E (config s) (s\<lparr>exported_schema := schema, globalSchemas := schema\<rparr>)
        else (Inr (), s\<lparr>exported_schema := schema, globalSchemas := schema\<rparr>))
       (\<lambda>_ s1.
          and_then (registerMrHorse E (config s1) s1)
            (\<lambda>_ s2. generateRoutes E schema (config s2) s2))"

definition register :: "env \<Rightarrow> server \<Rightarrow> plugin_options \<Rightarrow> state \<Rightarrow> (exn + unit) \<times> state" where
  "register E srv options s =
     and_then (register_validator E srv s)
       (\<lambda>_ s1.
          and_then (register_setup E options s1)
            (\<lambda>_ s2.
               and_then (register_schema E s2)
                 (\<lambda>schema s3. register_finish E schema s3)))"

text \<open>The \<^verbatim>\<open>onRequest\<close> hook that \<^verbatim>\<open>register\<close> installs, for the request \<open>r\<close>.\<close>

definition onRequest :: "nat \<Rightarrow> state \<Rightarrow> state" where
  "onRequest r s = s\<lparr>requests := (requests s)(r := \<lparr>connections = Map.empty\<rparr>)\<rparr>"

subsection \<open>\<^verbatim>\<open>generateModels\<close>\<close>

text \<open>
  The function up to the point where it calls the build (lines 152 to 160), and the
  callback passed to \<^verbatim>\<open>then\<close> (lines 163 to 165), which runs only when the build resolves.
\<close>

definition generateModels_begin :: "state \<Rightarrow> state" where
  "generateModels_begin s =
     (let s1 = s\<lparr>modelsGenerated := True\<rparr>;
          s2 = s1\<lparr>config := extend_deep (config s1) (config s1)\<rparr>
      in (snd (getLogger ''models'' s2))\<lparr>exported_logger := Some (fst (getLogger ''models'' s2))\<rparr>)"

definition generateModels_then :: "registry \<Rightarrow> state \<Rightarrow> state" where
  "generateModels_then schema s = s\<lparr>globalSchemas := Some schema, exported_schema := Some schema\<rparr>"

definition generateModels :: "env \<Rightarrow> state \<Rightarrow> (exn + registry) \<times> state" where
  "generateModels E s =
     (case modelGenerator E (trace (generateModels_begin s)) (config (generateModels_begin s)) of
        Inl err \<Rightarrow>
          (Inl err, emit (ModelGenerator (config (generateModels_begin s))) (generateModels_begin s))
      | Inr schema \<Rightarrow>
          (Inr schema,
           generateModels_then schema
             (emit (ModelGenerator (config (generateModels_begin s))) (generateModels_begin s))))"

subsection \<open>\<^verbatim>\<open>getConnection\<close>, \<^verbatim>\<open>spawnModel\<close>, \<^verbatim>\<open>getModel\<close>\<close>

text \<open>
  \<^verbatim>\<open>exported.config.mongo.defaultConnection\<close>: a \<^verbatim>\<open>TypeError\<close> when the configuration has no
  \<^verbatim>\<open>mongo\<close>.
\<close>

definition defaultConnection :: "state \<Rightarrow> exn + jval" where
  "defaultConnection s =
     (case read_prop (config s) ''mongo'' of
        Inl e \<Rightarrow> Inl e
      | Inr mongo \<Rightarrow> read_prop mongo ''defaultConnection'')"

text \<open>
  \<^verbatim>\<open>!connection || !connection.connection\<close> for the value read from
  \<^verbatim>\<open>request.connections\<close>: no entry (or an inherited value, which has no \<^verbatim>\<open>connection\<close>), or
  an entry without a connection.
\<close>

definition no_connection :: "state \<Rightarrow> nat option \<Rightarrow> bool" where
  "no_connection s c =
     (case c of
        None \<Rightarrow> True
      | Some a \<Rightarrow> (case entries s a of None \<Rightarrow> True | Some e \<Rightarrow> ce_connection e = None))"

text \<open>
  The result is the address of the entry. The parameter \<open>name\<close> defaults to the string
  \<^verbatim>\<open>'default'\<close>; \<^verbatim>\<open>===\<close> on names (primitive values) is equality of the values.
\<close>

definition getConnection :: "jval \<Rightarrow> nat \<Rightarrow> state \<Rightarrow> exn + nat" where
  "getConnection name0 r s =
     (case defaultConnection s of
        Inl e \<Rightarrow> Inl e
      | Inr dflt \<Rightarrow>
          (let name = default_arg name0 (JStr ''default'');
               connection =
                 (if name \<noteq> dflt then connections (requests s r) (to_string name)
                  else connections (requests s r) (to_string dflt))
           in if no_connection s connection
              then
                (if name = dflt then Inl (Error ''No database connections found.'')
                 else Inl (Error (''Connection '' @ [CHR 0x27] @ to_string name @ [CHR 0x27] @
                                   '' does not exists.'')))
              else Inr (the connection)))"

text \<open>
  What a plain object inherits under \<open>name\<close>: a member of \<^verbatim>\<open>Object.prototype\<close>, and
  \<^verbatim>\<open>Object.prototype.with\<close> once it has been assigned; \<open>None\<close> for \<^verbatim>\<open>undefined\<close>. Then the read
  \<^verbatim>\<open>connection.models[name]\<close>: the own property, which is a model that \<^verbatim>\<open>spawnModel\<close> has
  stored, or else the inherited value.
\<close>

definition inherited :: "state \<Rightarrow> string \<Rightarrow> objref option" where
  "inherited s name =
     (if name = ''__proto__'' then Some ObjectPrototype
      else if name \<in> set object_prototype_members then Some (Member name)
      else if name = ''with'' then map_option (\<lambda>c. ClosureAt (fst c)) (prototype_with s)
      else None)"

definition models_read :: "state \<Rightarrow> conn_entry \<Rightarrow> string \<Rightarrow> objref option" where
  "models_read s connection name =
     (case ce_models connection name of
        Some m \<Rightarrow> Some (ModelAt m)
      | None \<Rightarrow> inherited s name)"

text \<open>
  \<^verbatim>\<open>spawnModel\<close>: what \<^verbatim>\<open>connection.models[name]\<close> holds when that is truthy, and a new model
  otherwise. A value inherited from \<^verbatim>\<open>Object.prototype\<close> is truthy, so for such a \<open>name\<close>
  the function returns it, calls nothing and stores nothing, whatever the registry holds.
  The arguments of \<^verbatim>\<open>connection.connection.model(...)\<close> are evaluated before the call:
  \<^verbatim>\<open>internals.globalSchemas[name].Schema\<close> throws a \<^verbatim>\<open>TypeError\<close> when the registry is
  \<^verbatim>\<open>undefined\<close> or has no \<open>name\<close>, and then nothing is called and nothing is stored. (The
  registry is read only after \<^verbatim>\<open>connection.models[name]\<close> was found falsy, hence only for a
  \<open>name\<close> that \<^verbatim>\<open>Object.prototype\<close> does not provide: there its own properties decide.) The
  driver's \<^verbatim>\<open>model\<close> returns a new model object, which is stored as an own property and
  returned.
\<close>

definition spawnModel :: "string \<Rightarrow> jval \<Rightarrow> nat \<Rightarrow> state \<Rightarrow> (exn + objref) \<times> state" where
  "spawnModel name connectionName r s =
     (case getConnection connectionName r s of
        Inl e \<Rightarrow> (Inl e, s)
      | Inr a \<Rightarrow>
          (case entries s a of
             None \<Rightarrow> (Inl (TypeError ''models''), s)
           | Some connection \<Rightarrow>
               (case models_read s connection name of
                  Some obj \<Rightarrow> (Inr obj, s)
                | None \<Rightarrow>
                    (case globalSchemas s of
                       None \<Rightarrow> (Inl (TypeError name), s)
                     | Some reg \<Rightarrow>
                         (case map_of reg name of
                            None \<Rightarrow> (Inl (TypeError ''Schema''), s)
                          | Some sd \<Rightarrow>
                              (Inr (ModelAt (next_addr s)),
                               emit (ConnectionModel (the (ce_connection connection)) name (Schema sd) name)
                                 (s\<lparr>models := (models s)(next_addr s \<mapsto>
                                        \<lparr>bm_name = name, bm_schema = Schema sd, bm_collection = name,
                                         bm_connection = the (ce_connection connection),
                                         bm_with = None\<rparr>),
                                     entries := (entries s)(a \<mapsto>
                                        connection\<lparr>ce_models := (ce_models connection)(name \<mapsto> next_addr s)\<rparr>),
                                     next_addr := Suc (next_addr s)\<rparr>)))))))"

text \<open>
  \<^verbatim>\<open>Object.assign(model, { with: conn => getModel(name, conn, request) })\<close>, for the object
  that \<^verbatim>\<open>spawnModel\<close> returned: the own property \<^verbatim>\<open>with\<close> of that object is set to a new
  closure. The closure has an address only where it can be returned as an object later on,
  that is when it becomes \<^verbatim>\<open>Object.prototype.with\<close>.
\<close>

definition assign_with :: "objref \<Rightarrow> string \<Rightarrow> nat \<Rightarrow> state \<Rightarrow> state" where
  "assign_with model name r s =
     (case model of
        ModelAt m \<Rightarrow>
          (case models s m of
             None \<Rightarrow> s
           | Some mo \<Rightarrow> s\<lparr>models := (models s)(m \<mapsto> mo\<lparr>bm_with := Some (name, r)\<rparr>)\<rparr>)
      | ObjectPrototype \<Rightarrow>
          s\<lparr>prototype_with := Some (next_addr s, name, r), next_addr := Suc (next_addr s)\<rparr>
      | Member n \<Rightarrow> s\<lparr>function_with := (function_with s)(Member n \<mapsto> (name, r))\<rparr>
      | ClosureAt a \<Rightarrow> s\<lparr>function_with := (function_with s)(ClosureAt a \<mapsto> (name, r))\<rparr>)"

text \<open>
  \<^verbatim>\<open>getModel\<close>: the default of \<open>connectionName\<close> is read from the configuration only when the
  argument is \<^verbatim>\<open>undefined\<close>; the result is the object that \<^verbatim>\<open>spawnModel\<close> returned.
\<close>

definition getModel :: "string \<Rightarrow> jval \<Rightarrow> nat \<Rightarrow> state \<Rightarrow> (exn + objref) \<times> state" where
  "getModel name connectionName0 r s =
     (case (if connectionName0 = JUndefined then defaultConnection s else Inr connectionName0) of
        Inl e \<Rightarrow> (Inl e, s)
      | Inr connectionName \<Rightarrow>
          (case spawnModel name connectionName r s of
             (Inl e, s1) \<Rightarrow> (Inl e, s1)
           | (Inr model, s1) \<Rightarrow>
               (case defaultConnection s1 of
                  Inl e \<Rightarrow> (Inl e, s1)
                | Inr dflt \<Rightarrow>
                    (if connectionName = dflt then (Inr model, assign_with model name r s1)
                     else (Inr model, s1)))))"

text \<open>
  The own property \<^verbatim>\<open>with\<close> of an object, as the name and the request that the closure
  captured, and the call \<^verbatim>\<open>model.with(conn)\<close>: the own closure is applied, or else the one
  inherited from \<^verbatim>\<open>Object.prototype\<close> (models, functions and closures all have it at the end
  of their prototype chain); without any the call throws a \<^verbatim>\<open>TypeError\<close>.
\<close>

definition own_with :: "state \<Rightarrow> objref \<Rightarrow> (string \<times> nat) option" where
  "own_with s model =
     (case model of
        ModelAt m \<Rightarrow> (case models s m of None \<Rightarrow> None | Some mo \<Rightarrow> bm_with mo)
      | ObjectPrototype \<Rightarrow> map_option snd (prototype_with s)
      | Member n \<Rightarrow> function_with s (Member n)
      | ClosureAt a \<Rightarrow> function_with s (ClosureAt a))"

definition model_with :: "objref \<Rightarrow> jval \<Rightarrow> state \<Rightarrow> (exn + objref) \<times> state" where
  "model_with model conn s =
     (case own_with s model of
        Some (name, r) \<Rightarrow> getModel name conn r s
      | None \<Rightarrow>
          (case prototype_with s of
             Some (a, name, r) \<Rightarrow> getModel name conn r s
           | None \<Rightarrow> (Inl (TypeError ''with''), s)))"

subsection \<open>\<^verbatim>\<open>mongooseInit\<close> and the closure \<^verbatim>\<open>dbConnect\<close>\<close>

text \<open>
  \<^verbatim>\<open>mongooseInit\<close>: the result is the address of the object returned, which is the entry
  \<^verbatim>\<open>request.connections[config.name]\<close> on the path that skips (line 264) and the driver
  connection on the path that connects (line 278). \<^verbatim>\<open>chalk\<close> only colours its argument.
\<close>

definition mongooseInit :: "env \<Rightarrow> jval \<Rightarrow> nat \<Rightarrow> state \<Rightarrow> (exn + nat) \<times> state" where
  "mongooseInit E cfg r s =
     (let s1 = emit (LogActionStart ''Connecting to Database'' (omit cfg ''pass'')) s in
      case read_prop cfg ''options'' of
        Inl e \<Rightarrow> (Inl e, s1)
      | Inr cfg_options \<Rightarrow>
          (let options = object_assign
                 (JObj [(''useNewUrlParser'', JBool True), (''useUnifiedTopology'', JBool True)])
                 cfg_options;
               name = get_prop cfg ''name'';
               existing = connections (requests s1 r) (to_string name)
           in if \<not> no_connection s1 existing
              then
                (Inr (the existing),
                 emit (LogWarn (''Connection '' @ to_string name @ '' already exists. Skipping...'')) s1)
              else
                (case createConnection E (trace s1) (get_prop cfg ''URI'') options of
                   Some e \<Rightarrow> (Inl e, emit (CreateConnection (get_prop cfg ''URI'') options) s1)
                 | None \<Rightarrow>
                     (let s2 = emit (CreateConnection (get_prop cfg ''URI'') options) s1;
                          connection = next_addr s2;
                          entry = Suc (next_addr s2)
                      in (Inr connection,
                          emit (LogLog ''mongoose connected'')
                            (s2\<lparr>handles := (handles s2)(connection \<mapsto>
                                   \<lparr>h_uri = get_prop cfg ''URI'', h_options = options\<rparr>),
                                entries := (entries s2)(entry \<mapsto>
                                   \<lparr>ce_name = name, ce_models = Map.empty,
                                    ce_connection = Some connection\<rparr>),
                                requests := (requests s2)(r := (requests s2 r)
                                   \<lparr>connections := (connections (requests s2 r))
                                      (to_string name \<mapsto> entry)\<rparr>),
                                next_addr := Suc (Suc (next_addr s2)),
                                globals_mongoose := True\<rparr>))))))"

text \<open>
  The closure \<^verbatim>\<open>dbConnect\<close> (lines 85 to 90), which is \<^verbatim>\<open>request.connect\<close> and the server
  method. \<open>dbConfig\<close> is the object \<^verbatim>\<open>options.config.mongo\<close> itself, not a copy: the merge
  writes into it. The parameter \<open>defaultDbConfig\<close> defaults to \<^verbatim>\<open>{}\<close>.
\<close>

definition merged_dbConfig :: "jval \<Rightarrow> jval \<Rightarrow> jval" where
  "merged_dbConfig dbConfig defaultDbConfig =
     extend_deep (extend_deep dbConfig (JObj [(''name'', JStr ''default'')]))
       (default_arg defaultDbConfig (JObj []))"

fun store_prop :: "jval \<Rightarrow> string \<Rightarrow> jval \<Rightarrow> jval" where
  "store_prop (JObj kvs) k v = JObj (AList.update k v kvs)"
| "store_prop o1 k v = o1"

definition dbConnect :: "env \<Rightarrow> jval \<Rightarrow> nat \<Rightarrow> state \<Rightarrow> (exn + nat) \<times> state" where
  "dbConnect E defaultDbConfig r s =
     (case read_prop (plugin_config s) ''mongo'' of
        Inl e \<Rightarrow> (Inl e, s)
      | Inr dbConfig \<Rightarrow>
          mongooseInit E (merged_dbConfig dbConfig defaultDbConfig) r
            (case dbConfig of
               JObj kvs \<Rightarrow>
                 s\<lparr>plugin_config :=
                     store_prop (plugin_config s) ''mongo'' (merged_dbConfig dbConfig defaultDbConfig)\<rparr>
             | _ \<Rightarrow> s))"

section \<open>Observations and example inputs\<close>

text \<open>The number of times the schema build has been invoked: its calls in the trace.\<close>

fun is_build :: "event \<Rightarrow> bool" where
  "is_build (ModelGenerator cfg) = True"
| "is_build ev = False"

definition builds :: "state \<Rightarrow> nat" where
  "builds s = length (filter is_build (trace s))"

text \<open>
  The state when the module has been loaded (lines 23 to 60), for a given \<^verbatim>\<open>defaultConfig\<close>;
  no request has passed the \<^verbatim>\<open>onRequest\<close> hook and the store is empty.
\<close>

definition init_state :: "jval \<Rightarrow> state" where
  "init_state defaultConfig =
     \<lparr>modelsGenerated = False, globalSchemas = Some [], pre = [], config = defaultConfig,
      exported_schema = Some [], exported_joi = None, exported_server = None,
      exported_logger = None, plugin_config = JUndefined, globals_mongoose = False,
      requests = (\<lambda>r. \<lparr>connections = Map.empty\<rparr>), handles = Map.empty, entries = Map.empty,
      models = Map.empty, next_addr = 0, trace = [], prototype_with = None,
      function_with = Map.empty\<rparr>"

text \<open>What a stage keeps: the number of builds, the flag and the registry.\<close>

definition keeps :: "state \<Rightarrow> state \<Rightarrow> bool" where
  "keeps s s' \<longleftrightarrow>
     builds s' = builds s \<and> modelsGenerated s' = modelsGenerated s \<and> globalSchemas s' = globalSchemas s"

text \<open>
  Example inputs. The collaborators never fail and the build returns the schemas \<open>A\<close> and
  \<open>B\<close>; the module lives in \<^verbatim>\<open>/srv/node_modules/rest-hapi\<close>; \<^verbatim>\<open>path.join\<close> is given for two
  segments without \<^verbatim>\<open>.\<close> or \<^verbatim>\<open>..\<close>, and \<^verbatim>\<open>replace\<close> for a replacement without \<^verbatim>\<open>$\<close>. Then a
  server without a validator, options and a default configuration.
\<close>

fun replace_first :: "string \<Rightarrow> string \<Rightarrow> string \<Rightarrow> string" where
  "replace_first [] pat rep = (if pat = [] then rep else [])"
| "replace_first (c # cs) pat rep =
     (if prefix pat (c # cs) then rep @ drop (length pat) (c # cs)
      else c # replace_first cs pat rep)"

definition join2 :: "string \<Rightarrow> string \<Rightarrow> string" where
  "join2 a b = (if b \<noteq> [] \<and> hd b = CHR ''/'' then a @ b else a @ ''/'' @ b)"

definition sample_env :: env where
  "sample_env =
     \<lparr>dirname = ''/srv/node_modules/rest-hapi'',
      path_join = join2,
      str_replace = (\<lambda>s pat rep. replace_first s pat (to_string rep)),
      modelGenerator = (\<lambda>tr cfg. Inr [(''A'', SchemaDef 1), (''B'', SchemaDef 2)]),
      createConnection = (\<lambda>tr uri opts. None),
      ext_call = (\<lambda>tr ev. None)\<rparr>"

definition sample_server :: server where
  "sample_server = \<lparr>realm_validator = None\<rparr>"

definition sample_options :: plugin_options where
  "sample_options =
     \<lparr>opt_config = JObj [(''mongo'', JObj [(''URI'', JStr ''mem://test'')])], opt_pre = None\<rparr>"

definition sample_config :: jval where
  "sample_config =
     JObj [(''loglevel'', JStr ''DEBUG''),
           (''mongo'', JObj [(''URI'', JStr ''mongodb://localhost/rest_hapi''),
                             (''defaultConnection'', JStr ''default'')])]"

text \<open>The same collaborators, with a build that throws \<^verbatim>\<open>new Error(msg)\<close>.\<close>

definition failing_env :: "string \<Rightarrow> env" where
  "failing_env msg = sample_env\<lparr>modelGenerator := (\<lambda>tr cfg. Inl (Error msg))\<rparr>"

text \<open>The number of warnings logged.\<close>

fun is_warn :: "event \<Rightarrow> bool" where
  "is_warn (LogWarn m) = True"
| "is_warn ev = False"

definition warnings :: "state \<Rightarrow> nat" where
  "warnings s = length (filter is_warn (trace s))"

text \<open>
  A value that \<^verbatim>\<open>extend\<close> copies as it is: neither \<^verbatim>\<open>undefined\<close> (skipped) nor an object
  (merged).
\<close>

fun is_leaf :: "jval \<Rightarrow> bool" where
  "is_leaf JUndefined = False"
| "is_leaf (JObj kvs) = False"
| "is_leaf v = True"

text \<open>A sequence of \<^verbatim>\<open>connect\<close> calls, each with its argument and its request.\<close>

fun connect_all :: "env \<Rightarrow> (jval \<times> nat) list \<Rightarrow> state \<Rightarrow> state" where
  "connect_all E [] s = s"
| "connect_all E ((ov, r) # calls) s = connect_all E calls (snd (dbConnect E ov r s))"


text \<open>
  The property name under which \<^verbatim>\<open>getModel\<close> looks the connection up in
  \<^verbatim>\<open>request.connections\<close>, for the configured default \<open>dflt\<close> and the argument
  \<open>connectionName\<close>: both defaults applied (that of \<^verbatim>\<open>getModel\<close>, then that of
  \<^verbatim>\<open>getConnection\<close>). For an omitted argument it is the name of the default connection.
\<close>

definition connection_key :: "jval \<Rightarrow> jval \<Rightarrow> string" where
  "connection_key dflt connectionName =
     to_string (default_arg (default_arg connectionName dflt) (JStr ''default''))"

text \<open>
  The shape of the store that \<^verbatim>\<open>connect\<close> and \<^verbatim>\<open>getModel\<close> build: every address in use has
  been allocated and every cached address holds a model; an entry is stored under one name
  of one request, and a model in one cache under one name; and a model that carries
  \<^verbatim>\<open>with\<close> is cached only by connections stored under the name \<open>dkey\<close>.
\<close>

definition refs_allocated :: "state \<Rightarrow> bool" where
  "refs_allocated s \<longleftrightarrow>
     (\<forall>r k a. connections (requests s r) k = Some a \<longrightarrow> a < next_addr s) \<and>
     (\<forall>a e n m. entries s a = Some e \<longrightarrow> ce_models e n = Some m \<longrightarrow>
        m < next_addr s \<and> models s m \<noteq> None)"

definition refs_unshared :: "state \<Rightarrow> bool" where
  "refs_unshared s \<longleftrightarrow>
     (\<forall>r k r' k' a. connections (requests s r) k = Some a \<longrightarrow>
        connections (requests s r') k' = Some a \<longrightarrow> r = r' \<and> k = k') \<and>
     (\<forall>a e n a' e' n' m. entries s a = Some e \<longrightarrow> ce_models e n = Some m \<longrightarrow>
        entries s a' = Some e' \<longrightarrow> ce_models e' n' = Some m \<longrightarrow> a = a' \<and> n = n')"

definition with_only_under :: "string \<Rightarrow> state \<Rightarrow> bool" where
  "with_only_under dkey s \<longleftrightarrow>
     (\<forall>r k a e n m mo. connections (requests s r) k = Some a \<longrightarrow> k \<noteq> dkey \<longrightarrow>
        entries s a = Some e \<longrightarrow> ce_models e n = Some m \<longrightarrow> models s m = Some mo \<longrightarrow>
        bm_with mo = None)"

definition store_ok :: "string \<Rightarrow> state \<Rightarrow> bool" where
  "store_ok dkey s \<longleftrightarrow> refs_allocated s \<and> refs_unshared s \<and> with_only_under dkey s"

text \<open>
  The driver calls that \<^verbatim>\<open>spawnModel\<close> makes for \<open>name\<close> on the entry at \<open>a\<close>: one call of
  \<^verbatim>\<open>connection.model\<close> when \<^verbatim>\<open>connection.models[name]\<close> is \<^verbatim>\<open>undefined\<close>, none otherwise. The
  state after \<^verbatim>\<open>spawnModel\<close> has created a model.
\<close>

definition creation_events :: "state \<Rightarrow> nat \<Rightarrow> string \<Rightarrow> schema_def \<Rightarrow> event list" where
  "creation_events s a name sd =
     (case entries s a of
        None \<Rightarrow> []
      | Some e \<Rightarrow>
          (case models_read s e name of
             Some obj \<Rightarrow> []
           | None \<Rightarrow> [ConnectionModel (the (ce_connection e)) name (Schema sd) name]))"

definition spawned :: "string \<Rightarrow> schema_def \<Rightarrow> nat \<Rightarrow> conn_entry \<Rightarrow> state \<Rightarrow> state" where
  "spawned name sd a e s =
     emit (ConnectionModel (the (ce_connection e)) name (Schema sd) name)
       (s\<lparr>models := (models s)(next_addr s \<mapsto>
              \<lparr>bm_name = name, bm_schema = Schema sd, bm_collection = name,
               bm_connection = the (ce_connection e), bm_with = None\<rparr>),
           entries := (entries s)(a \<mapsto> e\<lparr>ce_models := (ce_models e)(name \<mapsto> next_addr s)\<rparr>),
           next_addr := Suc (next_addr s)\<rparr>)"

text \<open>
  Example states: the module registered with the example inputs and two requests (0 and 1)
  past the \<^verbatim>\<open>onRequest\<close> hook; then request 0 connected, with a default configuration whose
  \<^verbatim>\<open>defaultConnection\<close> is \<^verbatim>\<open>primary\<close>, and with the example configuration to the default
  connection and to a second one.
\<close>

definition primary_config :: jval where
  "primary_config =
     JObj [(''loglevel'', JStr ''DEBUG''),
           (''mongo'', JObj [(''URI'', JStr ''mongodb://localhost/rest_hapi''),
                             (''defaultConnection'', JStr ''primary'')])]"

definition registered :: "jval \<Rightarrow> state" where
  "registered defaultConfig =
     onRequest 0 (onRequest 1
       (snd (register sample_env sample_server sample_options (init_state defaultConfig))))"

definition primary_connected :: state where
  "primary_connected =
     snd (dbConnect sample_env (JObj [(''name'', JStr ''primary'')]) 0 (registered primary_config))"

definition default_connected :: state where
  "default_connected = snd (dbConnect sample_env JUndefined 0 (registered sample_config))"



text \<open>
  The example inputs with a build that returns a schema named \<^verbatim>\<open>constructor\<close> beside \<open>A\<close>,
  and the module registered with them, request 0 past the hook and connected to the default
  connection.
\<close>

definition shadow_env :: env where
  "shadow_env =
     sample_env\<lparr>modelGenerator := (\<lambda>tr cfg. Inr [(''A'', SchemaDef 1), (''constructor'', SchemaDef 3)])\<rparr>"

definition shadow_connected :: state where
  "shadow_connected =
     snd (dbConnect shadow_env JUndefined 0
            (onRequest 0 (snd (register shadow_env sample_server sample_options (init_state sample_config)))))"

text \<open>
  The example inputs with a build that returns the schema \<open>B\<close> only; and the state in which
  request 0, connected to the default connection, has resolved the model \<open>A\<close> and the
  registry has then been generated again by \<^verbatim>\<open>generateModels\<close> with that build.
\<close>

definition only_b_env :: env where
  "only_b_env = sample_env\<lparr>modelGenerator := (\<lambda>tr cfg. Inr [(''B'', SchemaDef 2)])\<rparr>"

definition regenerated :: state where
  "regenerated =
     snd (generateModels only_b_env (snd (getModel ''A'' JUndefined 0 default_connected)))"

text \<open>
  The calls and log lines of the stages of \<^verbatim>\<open>register\<close> that follow the schema resolution
  (lines 136 to 142) when \<^verbatim>\<open>schema\<close> is \<^verbatim>\<open>undefined\<close> and no call throws, in order: the
  documentation plugin unless it is disabled, the policy plugin and its policies, the route
  helper (whose loop has no model to visit) and the generator of the additional routes.
\<close>

definition later_stages :: "env \<Rightarrow> jval \<Rightarrow> event list" where
  "later_stages E cfg =
     (if \<not> truthy (get_prop cfg ''disableSwagger'')
      then [RegisterSwagger cfg, LogInfo ''hapi-swagger plugin registered''] else []) @
     [RegisterMrHorse (policyPath E cfg)] @
     (if truthy (get_prop cfg ''enablePolicies'')
      then [LoadPolicies (JStr (path_join E (dirname E) ''/policies''))] else []) @
     [LogInfo ''MrHorse plugin registered'', RestHelperFactory, ApiGenerator cfg]"

text \<open>
  A stage that, started in the state \<open>s\<close>, makes the calls \<open>evs\<close> and ends with the
  result \<open>res\<close>: it leaves the configuration as it is; when it returns it has added all of
  \<open>evs\<close> to the trace, and when it throws it has added an initial part of \<open>evs\<close>, which
  ends with the call that threw.
\<close>

definition stage_runs :: "event list \<Rightarrow> state \<Rightarrow> (exn + unit) \<times> state \<Rightarrow> bool" where
  "stage_runs evs s res \<longleftrightarrow>
     config (snd res) = config s \<and>
     (case fst res of
        Inr u \<Rightarrow> trace (snd res) = trace s @ evs
      | Inl e \<Rightarrow> (\<exists>n. 0 < n \<and> n \<le> length evs \<and> trace (snd res) = trace s @ take n evs))"

section \<open>Stages of \<^verbatim>\<open>register\<close>: what they keep\<close>

lemma builds_emit: "builds (emit ev s) = builds s + (if is_build ev then 1 else 0)"
  by (simp add: builds_def emit_def)

lemma and_then_cong_result:
  assumes "\<And>x s'. m = (Inr x, s') \<Longrightarrow> f x s' = g x s'"
  shows "and_then m f = and_then m g"
  using assms by (cases m; cases "fst m") (auto simp: and_then_def)

lemma keeps_refl: "keeps s s" by (simp add: keeps_def)

lemma keeps_trans: "keeps s s1 \<Longrightarrow> keeps s1 s2 \<Longrightarrow> keeps s s2" by (simp add: keeps_def)

lemma keeps_ext: "\<not> is_build ev \<Longrightarrow> keeps s (snd (ext E ev s))"
  by (simp add: ext_def keeps_def builds_def emit_def split: option.splits)

lemma keeps_emit: "\<not> is_build ev \<Longrightarrow> keeps s (emit ev s)"
  by (simp add: keeps_def builds_def emit_def)

lemma keeps_and_then:
  assumes "keeps s (snd m)" and "\<And>x s1. m = (Inr x, s1) \<Longrightarrow> keeps s1 (snd (f x s1))"
  shows "keeps s (snd (and_then m f))"
proof (cases m)
  case (Pair res s1)
  show ?thesis
  proof (cases res)
    case (Inl e)
    with Pair assms(1) show ?thesis by (simp add: and_then_def)
  next
    case (Inr x)
    with Pair assms(2) [of x s1] have "keeps s1 (snd (f x s1))" by simp
    with Pair Inr assms(1) show ?thesis by (auto simp: and_then_def intro: keeps_trans)
  qed
qed

lemma keeps_loop: "keeps s (snd (generateRoutes_loop E ks s))"
proof (induction ks arbitrary: s)
  case Nil show ?case by (simp add: keeps_refl)
next
  case (Cons k ks)
  show ?case
    unfolding generateRoutes_loop.simps
    by (rule keeps_and_then) (simp_all add: keeps_ext Cons.IH)
qed

lemma keeps_generateRoutes: "keeps s (snd (generateRoutes E schema cfg s))"
  unfolding generateRoutes_def
  by (intro keeps_and_then keeps_ext keeps_loop) simp_all

lemma keeps_registerMrHorse: "keeps s (snd (registerMrHorse E cfg s))"
  unfolding registerMrHorse_def
  by (intro keeps_and_then keeps_ext) (auto simp: keeps_refl keeps_ext keeps_emit)

lemma keeps_registerHapiSwagger: "keeps s (snd (registerHapiSwagger E cfg s))"
  unfolding registerHapiSwagger_def
  by (intro keeps_and_then keeps_ext) (auto simp: keeps_emit)

lemma keeps_register_validator: "keeps s (snd (register_validator E srv s))"
  by (auto simp: register_validator_def and_then_def ext_def emit_def keeps_def builds_def split: option.splits)

lemma keeps_register_setup: "keeps s (snd (register_setup E options s))"
  by (auto simp: register_setup_def getLogger_def Let_def and_then_def ext_def emit_def keeps_def builds_def split: option.splits)

lemma register_finish_builds:
  "builds (snd (register_finish E schema s)) = builds s"
  "modelsGenerated (snd (register_finish E schema s)) = modelsGenerated s"
  "globalSchemas (snd (register_finish E schema s)) = schema"
proof -
  let ?s0 = "s\<lparr>exported_schema := schema, globalSchemas := schema\<rparr>"
  have "keeps ?s0 (snd (register_finish E schema s))"
    unfolding register_finish_def
    by (intro keeps_and_then) (auto simp: keeps_refl keeps_registerHapiSwagger keeps_registerMrHorse keeps_generateRoutes)
  then show "builds (snd (register_finish E schema s)) = builds s"
    "modelsGenerated (snd (register_finish E schema s)) = modelsGenerated s"
    "globalSchemas (snd (register_finish E schema s)) = schema"
    by (simp_all add: keeps_def builds_def)
qed


lemma register_schema_flag_set:
  "modelsGenerated s \<Longrightarrow> register_schema E s = (Inr (globalSchemas s), s)"
  by (simp add: register_schema_def)

lemma register_schema_builds:
  "\<not> modelsGenerated s \<Longrightarrow> builds (snd (register_schema E s)) = Suc (builds s)"
  "modelsGenerated (snd (register_schema E s)) = modelsGenerated s"
  by (auto simp: register_schema_def builds_def emit_def split: sum.splits)

lemma register_with_flag:
  assumes "modelsGenerated s"
  shows "register E srv options s =
           and_then (register_validator E srv s)
             (\<lambda>_ s1. and_then (register_setup E options s1)
                (\<lambda>_ s2. register_finish E (globalSchemas s) s2))"
proof -
  have inner: "and_then (register_schema E s2) (\<lambda>schema s3. register_finish E schema s3) =
               register_finish E (globalSchemas s) s2"
    if "keeps s s2" for s2
    using that assms by (simp add: keeps_def register_schema_flag_set and_then_def)
  have mid: "and_then (register_setup E options s1)
               (\<lambda>_ s2. and_then (register_schema E s2) (\<lambda>schema s3. register_finish E schema s3)) =
             and_then (register_setup E options s1) (\<lambda>_ s2. register_finish E (globalSchemas s) s2)"
    if k1: "keeps s s1" for s1
  proof (rule and_then_cong_result)
    fix x s2 assume "register_setup E options s1 = (Inr x, s2)"
    with keeps_register_setup [where s = s1 and E = E and options = options] have "keeps s1 s2" by simp
    with k1 have "keeps s s2" by (rule keeps_trans)
    then show "and_then (register_schema E s2) (\<lambda>schema s3. register_finish E schema s3) =
               register_finish E (globalSchemas s) s2" by (rule inner)
  qed
  show ?thesis
    unfolding register_def
  proof (rule and_then_cong_result)
    fix x s1 assume "register_validator E srv s = (Inr x, s1)"
    with keeps_register_validator [where s = s and E = E and srv = srv] have "keeps s s1" by simp
    then show "and_then (register_setup E options s1)
               (\<lambda>_ s2. and_then (register_schema E s2) (\<lambda>schema s3. register_finish E schema s3)) =
             and_then (register_setup E options s1) (\<lambda>_ s2. register_finish E (globalSchemas s) s2)"
      by (rule mid)
  qed
qed

lemma keeps_register_finish:
  "globalSchemas s = schema \<Longrightarrow> keeps s (snd (register_finish E schema s))"
  by (simp add: keeps_def register_finish_builds)

lemma keeps_register_flag:
  assumes "modelsGenerated s"
  shows "keeps s (snd (register E srv options s))"
  unfolding register_with_flag [OF assms]
proof (rule keeps_and_then)
  show "keeps s (snd (register_validator E srv s))" by (rule keeps_register_validator)
next
  fix x s1 assume "register_validator E srv s = (Inr x, s1)"
  with keeps_register_validator [where s = s and E = E and srv = srv] have k1: "keeps s s1" by simp
  show "keeps s1 (snd (and_then (register_setup E options s1) (\<lambda>_ s2. register_finish E (globalSchemas s) s2)))"
  proof (rule keeps_and_then)
    show "keeps s1 (snd (register_setup E options s1))" by (rule keeps_register_setup)
  next
    fix y s2 assume "register_setup E options s1 = (Inr y, s2)"
    with keeps_register_setup [where s = s1 and E = E and options = options] have "keeps s1 s2" by simp
    with k1 have "globalSchemas s2 = globalSchemas s" by (simp add: keeps_def)
    then show "keeps s2 (snd (register_finish E (globalSchemas s) s2))"
      by (rule keeps_register_finish)
  qed
qed

lemma register_completed_stages:
  assumes "fst (register E srv options s) = Inr ()"
  obtains s1 s2 schema s3 where
    "register_validator E srv s = (Inr (), s1)"
    "register_setup E options s1 = (Inr (), s2)"
    "register_schema E s2 = (Inr schema, s3)"
    "register E srv options s = register_finish E schema s3"
proof -
  obtain r1 s1 where v: "register_validator E srv s = (r1, s1)" by (cases "register_validator E srv s")
  with assms have r1: "r1 = Inr ()" by (cases r1) (auto simp: register_def and_then_def)
  obtain r2 s2 where st: "register_setup E options s1 = (r2, s2)" by (cases "register_setup E options s1")
  with assms v r1 have r2: "r2 = Inr ()" by (cases r2) (auto simp: register_def and_then_def)
  obtain r3 s3 where sc: "register_schema E s2 = (r3, s3)" by (cases "register_schema E s2")
  with assms v r1 st r2 obtain schema where r3: "r3 = Inr schema"
    by (cases r3) (auto simp: register_def and_then_def)
  from v r1 st r2 sc r3 have "register E srv options s = register_finish E schema s3"
    by (simp add: register_def and_then_def)
  with v r1 st r2 sc r3 that show thesis by blast
qed

lemma register_without_flag:
  assumes "\<not> modelsGenerated s" and "fst (register E srv options s) = Inr ()"
  shows "builds (snd (register E srv options s)) = Suc (builds s)"
    and "\<not> modelsGenerated (snd (register E srv options s))"
proof -
  from assms(2) obtain s1 s2 schema s3 where
    v: "register_validator E srv s = (Inr (), s1)" and
    st: "register_setup E options s1 = (Inr (), s2)" and
    sc: "register_schema E s2 = (Inr schema, s3)" and
    fin: "register E srv options s = register_finish E schema s3"
    by (rule register_completed_stages)
  from keeps_register_validator [where s = s and E = E and srv = srv] v have k1: "keeps s s1" by simp
  from keeps_register_setup [where s = s1 and E = E and options = options] st have k2: "keeps s1 s2" by simp
  from k1 k2 assms(1) have nf: "\<not> modelsGenerated s2" and b2: "builds s2 = builds s"
    by (simp_all add: keeps_def)
  from register_schema_builds [where s = s2 and E = E] nf sc have "builds s3 = Suc (builds s2)" "\<not> modelsGenerated s3"
    by simp_all
  with fin b2 show "builds (snd (register E srv options s)) = Suc (builds s)"
    and "\<not> modelsGenerated (snd (register E srv options s))"
    by (simp_all add: register_finish_builds)
qed

lemma generateModels_begin_facts:
  "modelsGenerated (generateModels_begin s)"
  "trace (generateModels_begin s) = trace s"
  "globalSchemas (generateModels_begin s) = globalSchemas s"
  by (simp_all add: generateModels_begin_def getLogger_def Let_def)

lemma generateModels_builds: "builds (snd (generateModels E s)) = Suc (builds s)"
  by (simp add: generateModels_def generateModels_then_def builds_def emit_def generateModels_begin_facts
      split: sum.splits)

lemma generateModels_flag: "modelsGenerated (snd (generateModels E s))"
  by (simp add: generateModels_def generateModels_then_def emit_def generateModels_begin_facts
      split: sum.splits)

lemmas eval_defs = register_def register_validator_def register_setup_def register_schema_def
    register_finish_def registerHapiSwagger_def registerMrHorse_def generateRoutes_def getLogger_def
    policyPath_def generateModels_def generateModels_begin_def generateModels_then_def
    and_then_def ext_def emit_def sample_env_def join2_def sample_options_def sample_config_def sample_server_def
    init_state_def builds_def Let_def

lemmas eval_defs2 = eval_defs failing_env_def policies_missing_def

section \<open>Connections and models: auxiliary facts\<close>

lemmas eval_req = dbConnect_def mongooseInit_def merged_dbConfig_def default_arg_def
   getConnection_def defaultConnection_def no_connection_def spawnModel_def getModel_def assign_with_def
   model_with_def emit_def Let_def sample_env_def join2_def

lemmas eval_inherit = inherited_def models_read_def own_with_def object_prototype_members_def

lemma registered_sample:
  "config (registered sample_config) =
     JObj [(''loglevel'', JStr ''DEBUG''),
           (''mongo'', JObj [(''URI'', JStr ''mem://test''), (''defaultConnection'', JStr ''default'')])]"
  "globalSchemas (registered sample_config) = Some [(''A'', SchemaDef 1), (''B'', SchemaDef 2)]"
  "plugin_config (registered sample_config) = JObj [(''mongo'', JObj [(''URI'', JStr ''mem://test'')])]"
  "requests (registered sample_config) r = \<lparr>connections = Map.empty\<rparr>"
  "entries (registered sample_config) = Map.empty"
  "models (registered sample_config) = Map.empty"
  "handles (registered sample_config) = Map.empty"
  "next_addr (registered sample_config) = 0"
  "prototype_with (registered sample_config) = None"
  "filter is_warn (trace (registered sample_config)) = []"
  by (simp_all add: eval_defs registered_def onRequest_def)

lemma registered_primary:
  "config (registered primary_config) =
     JObj [(''loglevel'', JStr ''DEBUG''),
           (''mongo'', JObj [(''URI'', JStr ''mem://test''), (''defaultConnection'', JStr ''primary'')])]"
  "plugin_config (registered primary_config) = JObj [(''mongo'', JObj [(''URI'', JStr ''mem://test'')])]"
  "requests (registered primary_config) r = \<lparr>connections = Map.empty\<rparr>"
  "entries (registered primary_config) = Map.empty"
  "next_addr (registered primary_config) = 0"
  by (simp_all add: eval_defs registered_def onRequest_def primary_config_def)

lemma primary_connected_fields:
  "config primary_connected =
     JObj [(''loglevel'', JStr ''DEBUG''),
           (''mongo'', JObj [(''URI'', JStr ''mem://test''), (''defaultConnection'', JStr ''primary'')])]"
  "connections (requests primary_connected 0) = [''primary'' \<mapsto> 1]"
  "entries primary_connected = [1 \<mapsto> \<lparr>ce_name = JStr ''primary'', ce_models = Map.empty, ce_connection = Some 0\<rparr>]"
  by (simp_all add: primary_connected_def eval_req registered_primary)

lemma default_connected_fields:
  "config default_connected =
     JObj [(''loglevel'', JStr ''DEBUG''),
           (''mongo'', JObj [(''URI'', JStr ''mem://test''), (''defaultConnection'', JStr ''default'')])]"
  "globalSchemas default_connected = Some [(''A'', SchemaDef 1), (''B'', SchemaDef 2)]"
  "plugin_config default_connected =
     JObj [(''mongo'', JObj [(''URI'', JStr ''mem://test''), (''name'', JStr ''default'')])]"
  "connections (requests default_connected 0) = [''default'' \<mapsto> 1]"
  "entries default_connected = [1 \<mapsto> \<lparr>ce_name = JStr ''default'', ce_models = Map.empty, ce_connection = Some 0\<rparr>]"
  "models default_connected = Map.empty"
  "next_addr default_connected = 2"
  "prototype_with default_connected = None"
  by (simp_all add: default_connected_def eval_req registered_sample)


lemma defaultConnection_cong: "config s' = config s \<Longrightarrow> defaultConnection s' = defaultConnection s"
  by (simp add: defaultConnection_def)

lemma no_connection_cong:
  "(\<And>a. map_option ce_connection (entries s' a) = map_option ce_connection (entries s a)) \<Longrightarrow>
   no_connection s' c = no_connection s c"
proof -
  assume h: "\<And>a. map_option ce_connection (entries s' a) = map_option ce_connection (entries s a)"
  show ?thesis
  proof (cases c)
    case None then show ?thesis by (simp add: no_connection_def)
  next
    case (Some a)
    with h [of a] show ?thesis
      by (cases "entries s a"; cases "entries s' a") (auto simp: no_connection_def)
  qed
qed

lemma getConnection_cong:
  assumes "config s' = config s" and "requests s' = requests s"
    and "\<And>a. map_option ce_connection (entries s' a) = map_option ce_connection (entries s a)"
  shows "getConnection cn r s' = getConnection cn r s"
proof -
  have nc: "no_connection s' c = no_connection s c" for c
    by (rule no_connection_cong) (rule assms(3))
  show ?thesis
    unfolding getConnection_def defaultConnection_def assms(1) assms(2) nc ..
qed

lemma getConnection_live:
  "getConnection cn r s = Inr a \<Longrightarrow> \<exists>e h. entries s a = Some e \<and> ce_connection e = Some h"
  by (auto simp: getConnection_def Let_def no_connection_def split: sum.splits if_splits option.splits)

lemma spawnModel_cached:
  "getConnection cn r s = Inr a \<Longrightarrow> entries s a = Some e \<Longrightarrow> ce_models e name = Some m \<Longrightarrow>
   spawnModel name cn r s = (Inr (ModelAt m), s)"
  by (simp add: spawnModel_def models_read_def)

lemma spawnModel_inherited:
  "getConnection cn r s = Inr a \<Longrightarrow> entries s a = Some e \<Longrightarrow> ce_models e name = None \<Longrightarrow>
   inherited s name = Some obj \<Longrightarrow> spawnModel name cn r s = (Inr obj, s)"
  by (simp add: spawnModel_def models_read_def)

lemma spawnModel_fresh:
  "getConnection cn r s = Inr a \<Longrightarrow> entries s a = Some e \<Longrightarrow> ce_models e name = None \<Longrightarrow>
   inherited s name = None \<Longrightarrow> globalSchemas s = Some reg \<Longrightarrow> map_of reg name = Some sd \<Longrightarrow>
   spawnModel name cn r s = (Inr (ModelAt (next_addr s)), spawned name sd a e s)"
  by (simp add: spawnModel_def models_read_def spawned_def)

lemma spawned_frame:
  "config (spawned name sd a e s) = config s"
  "requests (spawned name sd a e s) = requests s"
  "globalSchemas (spawned name sd a e s) = globalSchemas s"
  "entries s a = Some e \<Longrightarrow>
     map_option ce_connection (entries (spawned name sd a e s) a') = map_option ce_connection (entries s a')"
  "entries (spawned name sd a e s) a = Some (e\<lparr>ce_models := (ce_models e)(name \<mapsto> next_addr s)\<rparr>)"
  "trace (spawned name sd a e s) = trace s @ [ConnectionModel (the (ce_connection e)) name (Schema sd) name]"
  "prototype_with (spawned name sd a e s) = prototype_with s"
  "function_with (spawned name sd a e s) = function_with s"
  by (simp_all add: spawned_def emit_def)

lemma assign_with_frame:
  "config (assign_with m name r s) = config s"
  "requests (assign_with m name r s) = requests s"
  "entries (assign_with m name r s) = entries s"
  "globalSchemas (assign_with m name r s) = globalSchemas s"
  "trace (assign_with m name r s) = trace s"
  by (simp_all add: assign_with_def split: option.splits objref.splits)

lemma assign_with_model_frame:
  "next_addr (assign_with (ModelAt m) name r s) = next_addr s"
  "prototype_with (assign_with (ModelAt m) name r s) = prototype_with s"
  "function_with (assign_with (ModelAt m) name r s) = function_with s"
  by (simp_all add: assign_with_def split: option.splits)

lemma assign_with_other:
  "\<forall>a. m \<noteq> ModelAt a \<Longrightarrow> models (assign_with m name r s) = models s"
  "next_addr s \<le> next_addr (assign_with m name r s)"
  by (simp_all add: assign_with_def split: option.splits objref.splits)

lemma assign_with_idem:
  "assign_with (ModelAt m) name r (assign_with (ModelAt m) name r s) = assign_with (ModelAt m) name r s"
  by (cases "models s m") (simp_all add: assign_with_def)

lemma inherited_not_model: "inherited s name \<noteq> Some (ModelAt a)"
  by (auto simp: inherited_def split: if_splits)

lemma spawnModel_present:
  assumes conn: "getConnection cn r s = Inr a" and inh: "inherited s name = None"
    and reg: "globalSchemas s = Some reg" "map_of reg name = Some sd"
  shows "\<exists>m s1 e1. spawnModel name cn r s = (Inr (ModelAt m), s1) \<and>
    config s1 = config s \<and> requests s1 = requests s \<and> globalSchemas s1 = globalSchemas s \<and>
    prototype_with s1 = prototype_with s \<and>
    (\<forall>a'. map_option ce_connection (entries s1 a') = map_option ce_connection (entries s a')) \<and>
    entries s1 a = Some e1 \<and> ce_models e1 name = Some m \<and>
    trace s1 = trace s @ creation_events s a name sd"
proof -
  from getConnection_live [OF conn] obtain e where e: "entries s a = Some e" by blast
  show ?thesis
  proof (cases "ce_models e name")
    case (Some m)
    from spawnModel_cached [OF conn e Some] e Some show ?thesis
      by (simp add: creation_events_def models_read_def)
  next
    case None
    have "\<forall>a'. map_option ce_connection (entries (spawned name sd a e s) a') =
                 map_option ce_connection (entries s a')"
      using spawned_frame(4) [OF e] by blast
    with spawnModel_fresh [OF conn e None inh reg] e None inh show ?thesis
      by (simp add: spawned_frame(1,2,3,5,6,7) creation_events_def models_read_def)
  qed
qed

lemma getModel_resolved:
  "defaultConnection s = Inr dflt \<Longrightarrow>
   getModel name cn r s =
     (case spawnModel name (default_arg cn dflt) r s of
        (Inl e, s1) \<Rightarrow> (Inl e, s1)
      | (Inr model, s1) \<Rightarrow>
          (case defaultConnection s1 of
             Inl e \<Rightarrow> (Inl e, s1)
           | Inr d1 \<Rightarrow>
               (if default_arg cn dflt = d1 then (Inr model, assign_with model name r s1)
                else (Inr model, s1))))"
  by (auto simp: getModel_def default_arg_def split: prod.splits sum.splits)

lemma spawnModel_Inr:
  assumes "spawnModel name c r s = (Inr m, s0)"
  shows "\<exists>a e. getConnection c r s = Inr a \<and> entries s a = Some e \<and>
           ((\<exists>m0. ce_models e name = Some m0 \<and> m = ModelAt m0 \<and> s0 = s) \<or>
            (ce_models e name = None \<and> inherited s name = Some m \<and> s0 = s) \<or>
            (ce_models e name = None \<and> inherited s name = None \<and> m = ModelAt (next_addr s) \<and>
             (\<exists>sd. s0 = spawned name sd a e s)))"
  using assms
  by (auto simp: spawnModel_def models_read_def spawned_def split: sum.splits option.splits)

lemma getModel_unknown:
  assumes d: "defaultConnection s = Inr dflt"
    and conn: "getConnection (default_arg cn dflt) r s = Inr a"
    and e: "entries s a = Some e" and nc: "ce_models e name = None"
    and inh: "inherited s name = None"
    and absent: "\<forall>reg. globalSchemas s = Some reg \<longrightarrow> map_of reg name = None"
  shows "\<exists>msg. getModel name cn r s = (Inl (TypeError msg), s)"
proof -
  have "\<exists>msg. spawnModel name (default_arg cn dflt) r s = (Inl (TypeError msg), s)"
  proof (cases "globalSchemas s")
    case None
    with conn e nc inh show ?thesis by (simp add: spawnModel_def models_read_def)
  next
    case (Some reg)
    with absent have "map_of reg name = None" by simp
    with conn e nc inh Some show ?thesis by (simp add: spawnModel_def models_read_def)
  qed
  then show ?thesis by (auto simp: getModel_resolved [OF d])
qed



lemma getModel_state:
  "\<exists>s0. (s0 = snd (spawnModel name (default_arg cn (projr (defaultConnection s))) r s) \<or> s0 = s) \<and>
        (snd (getModel name cn r s) = s0 \<or> (\<exists>m. snd (getModel name cn r s) = assign_with m name r s0))"
  by (auto simp: getModel_def default_arg_def split: sum.splits prod.splits)




lemma store_ok_grow:
  assumes "requests s' = requests s" "entries s' = entries s" "models s' = models s"
    "next_addr s \<le> next_addr s'" and ok: "store_ok dkey s"
  shows "store_ok dkey s'"
proof -
  from ok have "refs_allocated s'"
    unfolding store_ok_def refs_allocated_def assms(1,2,3) using assms(4) by (meson less_le_trans)
  with ok show ?thesis
    by (simp add: store_ok_def refs_unshared_def with_only_under_def assms(1,2,3))
qed









lemma store_ok_spawned:
  assumes ok: "store_ok dkey s" and ea: "entries s a = Some e"
  shows "store_ok dkey (spawned name sd a e s)"
proof -
  let ?s' = "spawned name sd a e s"
  let ?new = "\<lparr>bm_name = name, bm_schema = Schema sd, bm_collection = name,
               bm_connection = the (ce_connection e), bm_with = None\<rparr>"
  from ok have al: "refs_allocated s" and un: "refs_unshared s" and wi: "with_only_under dkey s"
    by (simp_all add: store_ok_def)
  have rq: "requests ?s' = requests s" and nx: "next_addr ?s' = Suc (next_addr s)"
    and mo: "models ?s' = (models s)(next_addr s \<mapsto> ?new)"
    and en: "entries ?s' = (entries s)(a \<mapsto> e\<lparr>ce_models := (ce_models e)(name \<mapsto> next_addr s)\<rparr>)"
    by (simp_all add: spawned_def emit_def)
  have old: "m < next_addr s \<and> models s m \<noteq> None" if "entries s a' = Some e'" "ce_models e' n = Some m"
    for a' e' n m
    using al that unfolding refs_allocated_def by blast
  have c: "(a' = a \<and> n = name \<and> m = next_addr s) \<or>
           (\<exists>e0. entries s a' = Some e0 \<and> ce_models e0 n = Some m \<and> m \<noteq> next_addr s \<and>
                 \<not> (a' = a \<and> n = name))"
    if "entries ?s' a' = Some e'" "ce_models e' n = Some m" for a' e' n m
  proof (cases "a' = a")
    case True
    with that ea have "((ce_models e)(name \<mapsto> next_addr s)) n = Some m" unfolding en by auto
    with True ea old [of a e n m] show ?thesis by (cases "n = name") auto
  next
    case False
    with that old [of a' e' n m] show ?thesis unfolding en by auto
  qed
  have "refs_allocated ?s'"
  proof -
    have "a' < next_addr ?s'" if "connections (requests ?s' r') k = Some a'" for r' k a'
      using that al unfolding rq nx refs_allocated_def by (meson less_SucI)
    moreover have "m < next_addr ?s' \<and> models ?s' m \<noteq> None"
      if "entries ?s' a' = Some e'" "ce_models e' n = Some m" for a' e' n m
      using c [OF that] old unfolding nx mo by fastforce
    ultimately show ?thesis unfolding refs_allocated_def by blast
  qed
  moreover have "refs_unshared ?s'"
  proof -
    have "r1 = r2 \<and> k1 = k2"
      if "connections (requests ?s' r1) k1 = Some a'" "connections (requests ?s' r2) k2 = Some a'"
      for r1 k1 r2 k2 a'
      using that un unfolding rq refs_unshared_def by blast
    moreover have "a1 = a2 \<and> n1 = n2"
      if 1: "entries ?s' a1 = Some e1" "ce_models e1 n1 = Some m"
        and 2: "entries ?s' a2 = Some e2" "ce_models e2 n2 = Some m" for a1 e1 n1 a2 e2 n2 m
      using c [OF 1] c [OF 2] un unfolding refs_unshared_def by blast
    ultimately show ?thesis unfolding refs_unshared_def by blast
  qed
  moreover have "with_only_under dkey ?s'"
    unfolding with_only_under_def
  proof (intro allI impI)
    fix r' k a' e' n m mo'
    assume 1: "connections (requests ?s' r') k = Some a'" and k: "k \<noteq> dkey"
      and 2: "entries ?s' a' = Some e'" and 3: "ce_models e' n = Some m" and 4: "models ?s' m = Some mo'"
    from c [OF 2 3] show "bm_with mo' = None"
    proof
      assume "a' = a \<and> n = name \<and> m = next_addr s"
      with 4 show ?thesis unfolding mo by auto
    next
      assume "\<exists>e0. entries s a' = Some e0 \<and> ce_models e0 n = Some m \<and> m \<noteq> next_addr s \<and>
                 \<not> (a' = a \<and> n = name)"
      then obtain e0 where "entries s a' = Some e0" "ce_models e0 n = Some m" "m \<noteq> next_addr s" by blast
      moreover from this 4 have "models s m = Some mo'" unfolding mo by simp
      ultimately show ?thesis using 1 k wi unfolding rq with_only_under_def by blast
    qed
  qed
  ultimately show ?thesis by (simp add: store_ok_def)
qed

lemma store_ok_assign_with:
  assumes ok: "store_ok dkey s" and ref: "connections (requests s r) dkey = Some a"
    and ea: "entries s a = Some e" and cm: "ce_models e n0 = Some m"
  shows "store_ok dkey (assign_with (ModelAt m) name r s)"
proof (cases "models s m")
  case None
  then show ?thesis using ok by (simp add: assign_with_def)
next
  case (Some mo)
  let ?s' = "assign_with (ModelAt m) name r s"
  from ok have al: "refs_allocated s" and un: "refs_unshared s" and wi: "with_only_under dkey s"
    by (simp_all add: store_ok_def)
  have f: "requests ?s' = requests s" "entries ?s' = entries s" "next_addr ?s' = next_addr s"
    by (simp_all add: assign_with_frame assign_with_model_frame)
  have mo: "models ?s' = (models s)(m \<mapsto> mo\<lparr>bm_with := Some (name, r)\<rparr>)"
    using Some by (simp add: assign_with_def)
  have "refs_allocated ?s'"
    using al unfolding refs_allocated_def f mo by auto
  moreover have "refs_unshared ?s'"
    using un unfolding refs_unshared_def f by blast
  moreover have "with_only_under dkey ?s'"
    unfolding with_only_under_def f
  proof (intro allI impI)
    fix r' k a' e' n m' mo'
    assume 1: "connections (requests s r') k = Some a'" and k: "k \<noteq> dkey"
      and 2: "entries s a' = Some e'" and 3: "ce_models e' n = Some m'" and 4: "models ?s' m' = Some mo'"
    have "m' \<noteq> m"
    proof
      assume "m' = m"
      with 2 3 ea cm un have "a' = a" unfolding refs_unshared_def by blast
      with 1 ref un have "k = dkey" unfolding refs_unshared_def by blast
      with k show False by simp
    qed
    with 4 have "models s m' = Some mo'" unfolding mo by simp
    with 1 k 2 3 wi show "bm_with mo' = None" unfolding with_only_under_def by blast
  qed
  ultimately show ?thesis by (simp add: store_ok_def)
qed

lemma store_ok_assign_with_other:
  assumes ok: "store_ok dkey s" and nm: "\<forall>a. m \<noteq> ModelAt a"
  shows "store_ok dkey (assign_with m name r s)"
  using ok
  by (rule store_ok_grow [rotated 4]) (simp_all add: assign_with_frame assign_with_other nm)

lemma getConnection_key:
  assumes "defaultConnection s = Inr dflt" and "getConnection c r s = Inr a"
  shows "connections (requests s r) (to_string (default_arg c (JStr ''default''))) = Some a"
  using assms
  by (auto simp: getConnection_def Let_def no_connection_def split: if_splits option.splits)

lemma spawnModel_Inl: "spawnModel name c r s = (Inl e, s0) \<Longrightarrow> s0 = s"
  by (auto simp: spawnModel_def split: sum.splits option.splits)

lemma connection_key_undefined:
  "connection_key dflt JUndefined = to_string (default_arg dflt (JStr ''default''))"
  by (simp add: connection_key_def default_arg_def)

lemma store_ok_getModel:
  assumes ok: "store_ok (connection_key dflt JUndefined) s" and d: "defaultConnection s = Inr dflt"
  shows "store_ok (connection_key dflt JUndefined) (snd (getModel name cn r s))"
proof -
  let ?k = "connection_key dflt JUndefined"
  let ?c = "default_arg cn dflt"
  obtain res s0 where sp: "spawnModel name ?c r s = (res, s0)" by (cases "spawnModel name ?c r s")
  show ?thesis
  proof (cases res)
    case (Inl e)
    with sp spawnModel_Inl [of name ?c r s e s0] have "snd (getModel name cn r s) = s"
      by (simp add: getModel_resolved [OF d])
    with ok show ?thesis by simp
  next
    case (Inr m)
    with sp have spm: "spawnModel name ?c r s = (Inr m, s0)" by simp
    from spawnModel_Inr [OF spm] obtain a e where
      conn: "getConnection ?c r s = Inr a" and ea: "entries s a = Some e" and
      alt: "(\<exists>m0. ce_models e name = Some m0 \<and> m = ModelAt m0 \<and> s0 = s) \<or>
            (ce_models e name = None \<and> inherited s name = Some m \<and> s0 = s) \<or>
            (ce_models e name = None \<and> inherited s name = None \<and> m = ModelAt (next_addr s) \<and>
             (\<exists>sd. s0 = spawned name sd a e s))"
      by blast
    from alt ok ea have ok0: "store_ok ?k s0" by (auto intro: store_ok_spawned)
    from alt ea have fr: "requests s0 = requests s" "config s0 = config s"
      by (auto simp: spawned_frame)
    from alt ea have e0: "(\<exists>m0 e'. m = ModelAt m0 \<and> entries s0 a = Some e' \<and> ce_models e' name = Some m0) \<or>
                          (\<forall>a'. m \<noteq> ModelAt a')"
      by (auto simp: spawned_frame inherited_not_model)
    from d fr defaultConnection_cong [of s0 s] have d0: "defaultConnection s0 = Inr dflt" by simp
    show ?thesis
    proof (cases "?c = dflt")
      case False
      with spm d0 have "snd (getModel name cn r s) = s0" by (simp add: getModel_resolved [OF d])
      with ok0 show ?thesis by simp
    next
      case True
      with spm d0 have g: "snd (getModel name cn r s) = assign_with m name r s0"
        by (simp add: getModel_resolved [OF d])
      from getConnection_key [OF d conn] True fr
      have "connections (requests s0 r) ?k = Some a" by (simp add: connection_key_undefined)
      with e0 ok0 show ?thesis unfolding g
        by (auto intro: store_ok_assign_with store_ok_assign_with_other)
    qed
  qed
qed



section \<open>The schema build and the flag \<^verbatim>\<open>modelsGenerated\<close>\<close>

text \<open>
  C1, as the code has it. \<^verbatim>\<open>generateModels\<close> invokes the build once and sets the flag;
  a \<^verbatim>\<open>register\<close> that follows it does not invoke the build and keeps the registry it finds,
  so that \<^verbatim>\<open>generateModels\<close> then \<^verbatim>\<open>register\<close> is exactly one invocation. \<^verbatim>\<open>register\<close>
  itself never sets the flag: a \<^verbatim>\<open>register\<close> that starts with the flag unset and completes
  has invoked the build once and leaves the flag unset, so every further such
  \<^verbatim>\<open>register\<close> builds again.
\<close>

theorem build_invocations:
  "builds (snd (generateModels E s)) = Suc (builds s) \<and>
   builds (snd (register E' srv options (snd (generateModels E s)))) = Suc (builds s) \<and>
   globalSchemas (snd (register E' srv options (snd (generateModels E s)))) =
     globalSchemas (snd (generateModels E s)) \<and>
   (\<not> modelsGenerated s \<and> fst (register E' srv options s) = Inr () \<longrightarrow>
      builds (snd (register E' srv options s)) = Suc (builds s) \<and>
      \<not> modelsGenerated (snd (register E' srv options s)))"
proof -
  have "keeps (snd (generateModels E s)) (snd (register E' srv options (snd (generateModels E s))))"
    by (rule keeps_register_flag) (rule generateModels_flag)
  then show ?thesis
    using register_without_flag [where s = s and E = E' and srv = srv and options = options]
    by (simp add: keeps_def generateModels_builds)
qed

theorem build_invocations_witness:
  "builds (snd (register sample_env sample_server sample_options (init_state sample_config))) = 1 \<and>
   builds (snd (register sample_env sample_server sample_options
                  (snd (generateModels sample_env (init_state sample_config))))) = 1"
  using build_invocations [of sample_env "init_state sample_config" sample_env sample_server sample_options]
  by (simp add: eval_defs)

text \<open>
  C1, as the specification states it, fails: \<^verbatim>\<open>register\<close> invoked twice on the freshly
  loaded module invokes the build twice, not once.
\<close>

theorem register_twice_builds_twice:
  "builds (snd (register sample_env sample_server sample_options
             (snd (register sample_env sample_server sample_options (init_state sample_config))))) = 2 \<and>
   \<not> builds (snd (register sample_env sample_server sample_options
               (snd (register sample_env sample_server sample_options (init_state sample_config))))) \<le> 1"
  by (simp add: eval_defs)

section \<open>The policy directory\<close>

lemma registerMrHorse_first_event:
  "\<exists>rest. trace (snd (registerMrHorse E cfg s)) = trace s @ RegisterMrHorse (policyPath E cfg) # rest"
  by (auto simp: registerMrHorse_def and_then_def ext_def emit_def split: option.splits)

text \<open>
  C5. With \<^verbatim>\<open>enablePolicies\<close> false, the directory that \<^verbatim>\<open>registerMrHorse\<close> resolves and
  registers the policy engine with is the module's own \<^verbatim>\<open>policies\<close> directory,
  \<^verbatim>\<open>path.join(__dirname, '/policies')\<close>. With \<^verbatim>\<open>enablePolicies\<close> and \<^verbatim>\<open>absolutePolicyPath\<close>
  true it is the configured \<^verbatim>\<open>policyPath\<close>, unchanged; in particular \<^verbatim>\<open>/x/y\<close> for \<^verbatim>\<open>/x/y\<close>.
\<close>

theorem policy_directory:
  "(get_prop cfg ''enablePolicies'' = JBool False \<longrightarrow>
      policyPath E cfg = JStr (path_join E (dirname E) ''/policies'') \<and>
      (\<exists>rest. trace (snd (registerMrHorse E cfg s)) =
         trace s @ RegisterMrHorse (JStr (path_join E (dirname E) ''/policies'')) # rest)) \<and>
   (get_prop cfg ''enablePolicies'' = JBool True \<and> get_prop cfg ''absolutePolicyPath'' = JBool True \<and>
    get_prop cfg ''policyPath'' = JStr p \<longrightarrow>
      policyPath E cfg = JStr p \<and>
      (\<exists>rest. trace (snd (registerMrHorse E cfg s)) = trace s @ RegisterMrHorse (JStr p) # rest))"
proof (intro conjI impI)
  assume off: "get_prop cfg ''enablePolicies'' = JBool False"
  then show dir: "policyPath E cfg = JStr (path_join E (dirname E) ''/policies'')"
    by (simp add: policyPath_def)
  from registerMrHorse_first_event [of E cfg s] dir
  show "\<exists>rest. trace (snd (registerMrHorse E cfg s)) =
         trace s @ RegisterMrHorse (JStr (path_join E (dirname E) ''/policies'')) # rest"
    by simp
next
  assume on: "get_prop cfg ''enablePolicies'' = JBool True \<and> get_prop cfg ''absolutePolicyPath'' = JBool True \<and>
    get_prop cfg ''policyPath'' = JStr p"
  then show dir: "policyPath E cfg = JStr p"
    by (simp add: policyPath_def)
  from registerMrHorse_first_event [of E cfg s] dir
  show "\<exists>rest. trace (snd (registerMrHorse E cfg s)) = trace s @ RegisterMrHorse (JStr p) # rest"
    by simp
qed

text \<open>C5 at \<^verbatim>\<open>policyPath = '/x/y'\<close>, policies disabled and enabled.\<close>

theorem policy_directory_witness:
  "policyPath sample_env (JObj [(''enablePolicies'', JBool False), (''policyPath'', JStr ''/x/y'')]) =
     JStr ''/srv/node_modules/rest-hapi/policies'' \<and>
   policyPath sample_env (JObj [(''enablePolicies'', JBool True), (''absolutePolicyPath'', JBool True),
                                (''policyPath'', JStr ''/x/y'')]) = JStr ''/x/y''"
  using policy_directory [of "JObj [(''enablePolicies'', JBool False), (''policyPath'', JStr ''/x/y'')]"
          sample_env "init_state sample_config" "''/x/y''"]
        policy_directory [of "JObj [(''enablePolicies'', JBool True), (''absolutePolicyPath'', JBool True),
                                (''policyPath'', JStr ''/x/y'')]"
          sample_env "init_state sample_config" "''/x/y''"]
  by (simp add: sample_env_def join2_def)

section \<open>Failure of the schema build inside \<^verbatim>\<open>register\<close>\<close>

lemma register_finish_no_schema:
  "RestGenerateRoutes k \<in> set (trace (snd (register_finish E None s))) \<Longrightarrow>
   RestGenerateRoutes k \<in> set (trace s)"
  by (auto simp: register_finish_def registerHapiSwagger_def registerMrHorse_def generateRoutes_def
      and_then_def ext_def emit_def split: option.splits if_splits)

text \<open>
  The stages that follow the schema resolution, for \<^verbatim>\<open>schema\<close> undefined: at least the
  first of their calls is made, and what they add to the trace is an initial part of
  \<open>later_stages\<close>; all of it when they return, and they return when no call throws.
\<close>

lemma stage_runs_cong:
  "config s0 = config s \<Longrightarrow> trace s0 = trace s \<Longrightarrow> stage_runs evs s0 res \<Longrightarrow> stage_runs evs s res"
  by (auto simp: stage_runs_def split: sum.splits)

lemma stage_runs_ext: "stage_runs [ev] s (ext E ev s)"
  by (auto simp: stage_runs_def ext_def emit_def split: option.splits intro: exI [of _ 1])

lemma stage_runs_emit: "stage_runs [ev] s (Inr (), emit ev s)"
  by (simp add: stage_runs_def emit_def)

lemma stage_runs_skip: "stage_runs [] s (Inr (), s)"
  by (simp add: stage_runs_def)

lemma stage_runs_and_then:
  assumes m: "stage_runs evs1 s m"
    and f: "\<And>x s1. m = (Inr x, s1) \<Longrightarrow> config s1 = config s \<Longrightarrow> stage_runs evs2 s1 (f x s1)"
  shows "stage_runs (evs1 @ evs2) s (and_then m f)"
proof (cases m)
  case (Pair res s1)
  show ?thesis
  proof (cases res)
    case (Inl e)
    with Pair m obtain n where n: "0 < n" "n \<le> length evs1" "trace s1 = trace s @ take n evs1"
      and c: "config s1 = config s"
      by (auto simp: stage_runs_def)
    from n have "0 < n \<and> n \<le> length (evs1 @ evs2) \<and> trace s1 = trace s @ take n (evs1 @ evs2)"
      by simp
    with Pair Inl c show ?thesis by (auto simp: stage_runs_def and_then_def)
  next
    case (Inr x)
    with Pair m have t1: "trace s1 = trace s @ evs1" and c1: "config s1 = config s"
      by (simp_all add: stage_runs_def)
    from f [of x s1] Pair Inr c1 have r: "stage_runs evs2 s1 (f x s1)" by simp
    have a: "and_then m f = f x s1" using Pair Inr by (simp add: and_then_def)
    show ?thesis
    proof (cases "fst (f x s1)")
      case (Inr u)
      with r t1 c1 show ?thesis unfolding a by (simp add: stage_runs_def)
    next
      case (Inl e)
      with r obtain n where n: "0 < n" "n \<le> length evs2" "trace (snd (f x s1)) = trace s1 @ take n evs2"
        and c: "config (snd (f x s1)) = config s1"
        by (auto simp: stage_runs_def)
      from n t1 have "0 < length evs1 + n \<and> length evs1 + n \<le> length (evs1 @ evs2) \<and>
          trace (snd (f x s1)) = trace s @ take (length evs1 + n) (evs1 @ evs2)"
        by simp
      then have "\<exists>k. 0 < k \<and> k \<le> length (evs1 @ evs2) \<and>
          trace (snd (f x s1)) = trace s @ take k (evs1 @ evs2)" by blast
      with Inl c c1 show ?thesis unfolding a by (simp add: stage_runs_def)
    qed
  qed
qed

lemma stage_runs_registerHapiSwagger:
  "stage_runs [RegisterSwagger cfg, LogInfo ''hapi-swagger plugin registered''] s
     (registerHapiSwagger E cfg s)"
  unfolding registerHapiSwagger_def
  using stage_runs_and_then [OF stage_runs_ext stage_runs_emit] by simp

lemma stage_runs_registerMrHorse:
  "stage_runs
     ([RegisterMrHorse (policyPath E cfg)] @
      (if truthy (get_prop cfg ''enablePolicies'')
       then [LoadPolicies (JStr (path_join E (dirname E) ''/policies''))] else []) @
      [LogInfo ''MrHorse plugin registered''])
     s (registerMrHorse E cfg s)"
  unfolding registerMrHorse_def
  by (intro stage_runs_and_then stage_runs_ext stage_runs_emit)
     (simp_all add: stage_runs_ext stage_runs_skip)

lemma stage_runs_generateRoutes:
  "stage_runs [RestHelperFactory, ApiGenerator cfg] s (generateRoutes E None cfg s)"
proof -
  have "stage_runs ([RestHelperFactory] @ [] @ [ApiGenerator cfg]) s (generateRoutes E None cfg s)"
    unfolding generateRoutes_def
    by (intro stage_runs_and_then stage_runs_ext) (simp add: stage_runs_skip)
  then show ?thesis by simp
qed

lemma stage_runs_register_finish:
  "stage_runs (later_stages E (config s)) s (register_finish E None s)"
proof -
  let ?s0 = "s\<lparr>exported_schema := None, globalSchemas := None\<rparr>"
  let ?cfg = "config s"
  have 1: "stage_runs
      (if \<not> truthy (get_prop ?cfg ''disableSwagger'')
       then [RegisterSwagger ?cfg, LogInfo ''hapi-swagger plugin registered''] else [])
      ?s0
      (if \<not> truthy (get_prop ?cfg ''disableSwagger'')
       then registerHapiSwagger E ?cfg ?s0 else (Inr (), ?s0))"
    by (simp add: stage_runs_registerHapiSwagger stage_runs_skip)
  have 2: "stage_runs
      (([RegisterMrHorse (policyPath E ?cfg)] @
        (if truthy (get_prop ?cfg ''enablePolicies'')
         then [LoadPolicies (JStr (path_join E (dirname E) ''/policies''))] else []) @
        [LogInfo ''MrHorse plugin registered'']) @
       [RestHelperFactory, ApiGenerator ?cfg])
      s1
      (and_then (registerMrHorse E (config s1) s1) (\<lambda>_ s2. generateRoutes E None (config s2) s2))"
    if c1: "config s1 = ?cfg" for s1
  proof (rule stage_runs_and_then)
    show "stage_runs
      ([RegisterMrHorse (policyPath E ?cfg)] @
        (if truthy (get_prop ?cfg ''enablePolicies'')
         then [LoadPolicies (JStr (path_join E (dirname E) ''/policies''))] else []) @
        [LogInfo ''MrHorse plugin registered''])
      s1 (registerMrHorse E (config s1) s1)"
      unfolding c1 by (rule stage_runs_registerMrHorse)
    show "stage_runs [RestHelperFactory, ApiGenerator ?cfg] s2 (generateRoutes E None (config s2) s2)"
      if "config s2 = config s1" for s2
      using stage_runs_generateRoutes [of "config s2" s2 E] that c1 by simp
  qed
  have "stage_runs
      ((if \<not> truthy (get_prop ?cfg ''disableSwagger'')
        then [RegisterSwagger ?cfg, LogInfo ''hapi-swagger plugin registered''] else []) @
       (([RegisterMrHorse (policyPath E ?cfg)] @
        (if truthy (get_prop ?cfg ''enablePolicies'')
         then [LoadPolicies (JStr (path_join E (dirname E) ''/policies''))] else []) @
        [LogInfo ''MrHorse plugin registered'']) @
       [RestHelperFactory, ApiGenerator ?cfg]))
      ?s0 (register_finish E None s)"
    unfolding register_finish_def
  proof (rule stage_runs_and_then [OF 1])
    fix x and s1 :: state assume "config s1 = config ?s0"
    then have "config s1 = ?cfg" by simp
    then show "stage_runs
      (([RegisterMrHorse (policyPath E ?cfg)] @
        (if truthy (get_prop ?cfg ''enablePolicies'')
         then [LoadPolicies (JStr (path_join E (dirname E) ''/policies''))] else []) @
        [LogInfo ''MrHorse plugin registered'']) @
       [RestHelperFactory, ApiGenerator ?cfg])
      s1
      (and_then (registerMrHorse E (config s1) s1) (\<lambda>_ s2. generateRoutes E None (config s2) s2))"
      by (rule 2)
  qed
  then have "stage_runs (later_stages E ?cfg) ?s0 (register_finish E None s)"
    by (simp add: later_stages_def)
  then show ?thesis by (rule stage_runs_cong [rotated 2]) simp_all
qed

lemma later_stages_nonempty: "later_stages E cfg \<noteq> []"
  by (simp add: later_stages_def)

lemma register_finish_runs:
  "length (trace s) < length (trace (snd (register_finish E None s)))"
  "prefix (trace (snd (register_finish E None s))) (trace s @ later_stages E (config s))"
  using stage_runs_register_finish [of E s] later_stages_nonempty [of E "config s"]
  by (auto simp: stage_runs_def take_is_prefix split: sum.splits)

lemma register_finish_returns:
  "fst (register_finish E None s) = Inr () \<Longrightarrow>
   trace (snd (register_finish E None s)) = trace s @ later_stages E (config s)"
  using stage_runs_register_finish [of E s] by (simp add: stage_runs_def)

lemma quiet_ext: "\<forall>tr ev. ext_call E tr ev = None \<Longrightarrow> ext E ev s = (Inr (), emit ev s)"
  by (simp add: ext_def)

lemma quiet_and_then:
  "fst m = Inr x \<Longrightarrow> (\<And>s1. fst (f x s1) = Inr y) \<Longrightarrow> fst (and_then m f) = Inr y"
  by (cases m) (simp add: and_then_def)

lemma register_finish_completes:
  assumes "\<forall>tr ev. ext_call E tr ev = None"
  shows "fst (register_finish E None s) = Inr ()"
proof -
  have sw: "fst (registerHapiSwagger E cfg s') = Inr ()" for cfg s'
    by (simp add: registerHapiSwagger_def quiet_ext [OF assms] and_then_def)
  have mh: "fst (registerMrHorse E cfg s') = Inr ()" for cfg s'
    by (simp add: registerMrHorse_def quiet_ext [OF assms] and_then_def)
  have gr: "fst (generateRoutes E None cfg s') = Inr ()" for cfg s'
    by (simp add: generateRoutes_def quiet_ext [OF assms] and_then_def)
  show ?thesis
    unfolding register_finish_def
    by (intro quiet_and_then [where x = "()"]) (simp_all add: sw mh gr)
qed

text \<open>
  C3. Let \<^verbatim>\<open>register\<close> reach the schema resolution with the flag unset, in the state
  \<open>s2\<close>, and let the build throw \<open>err\<close>. If the message of \<open>err\<close> includes
  \<^verbatim>\<open>no such file\<close>, the error is logged and swallowed: registration goes on with the
  remaining stages and \<^verbatim>\<open>schema\<close> undefined, stores no registry and generates no model
  route. The remaining stages do run: after the build and the error line the trace goes on
  with at least the first call of \<open>later_stages\<close> and with nothing but calls of
  \<open>later_stages\<close> in their order; with all of them when \<^verbatim>\<open>register\<close> returns, which it does
  when none of the calls throws. Otherwise \<^verbatim>\<open>register\<close> throws \<open>err\<close> itself and nothing
  happens after the build.
\<close>

theorem register_build_failure:
  "\<not> modelsGenerated s \<and> register_validator E srv s = (Inr (), s1) \<and>
   register_setup E options s1 = (Inr (), s2) \<and>
   modelGenerator E (trace s2) (config s2) = Inl err \<longrightarrow>
     (str_includes (message err) ''no such file'' \<longrightarrow>
        register E srv options s =
          register_finish E None (emit (LogError policies_missing) (emit (ModelGenerator (config s2)) s2)) \<and>
        globalSchemas (snd (register E srv options s)) = None \<and>
        (\<forall>k. RestGenerateRoutes k \<in> set (trace (snd (register E srv options s))) \<longrightarrow>
               RestGenerateRoutes k \<in> set (trace s2)) \<and>
        length (trace s2) + 2 < length (trace (snd (register E srv options s))) \<and>
        prefix (trace (snd (register E srv options s)))
          (trace s2 @ [ModelGenerator (config s2), LogError policies_missing] @ later_stages E (config s2)) \<and>
        (fst (register E srv options s) = Inr () \<longrightarrow>
           trace (snd (register E srv options s)) =
             trace s2 @ [ModelGenerator (config s2), LogError policies_missing] @
             later_stages E (config s2)) \<and>
        ((\<forall>tr ev. ext_call E tr ev = None) \<longrightarrow> fst (register E srv options s) = Inr ())) \<and>
     (\<not> str_includes (message err) ''no such file'' \<longrightarrow>
        register E srv options s = (Inl err, emit (ModelGenerator (config s2)) s2))"
proof (intro impI, elim conjE)
  assume nf: "\<not> modelsGenerated s" and v: "register_validator E srv s = (Inr (), s1)"
    and st: "register_setup E options s1 = (Inr (), s2)"
    and fail: "modelGenerator E (trace s2) (config s2) = Inl err"
  from keeps_register_validator [where s = s and E = E and srv = srv] v have "keeps s s1" by simp
  moreover from keeps_register_setup [where s = s1 and E = E and options = options] st have "keeps s1 s2" by simp
  ultimately have nf2: "\<not> modelsGenerated s2" using nf by (simp add: keeps_def)
  let ?s3 = "emit (LogError policies_missing) (emit (ModelGenerator (config s2)) s2)"
  let ?R = "register E srv options s"
  have s3: "trace ?s3 = trace s2 @ [ModelGenerator (config s2), LogError policies_missing]"
    "config ?s3 = config s2"
    by (simp_all add: emit_def)
  have swallow: "?R = register_finish E None ?s3"
    if "str_includes (message err) ''no such file''"
    using that v st fail nf2 by (simp add: register_def and_then_def register_schema_def)
  have propagate: "?R = (Inl err, emit (ModelGenerator (config s2)) s2)"
    if "\<not> str_includes (message err) ''no such file''"
    using that v st fail nf2 by (simp add: register_def and_then_def register_schema_def)
  have routes: "RestGenerateRoutes k \<in> set (trace s2)"
    if "RestGenerateRoutes k \<in> set (trace (snd (register_finish E None ?s3)))" for k
  proof -
    from that have "RestGenerateRoutes k \<in> set (trace ?s3)" by (rule register_finish_no_schema)
    then show ?thesis by (simp add: emit_def)
  qed
  have runs: "length (trace s2) + 2 < length (trace (snd (register_finish E None ?s3)))"
    using register_finish_runs(1) [where s = ?s3 and E = E] by (simp add: s3)
  have part: "prefix (trace (snd (register_finish E None ?s3)))
          (trace s2 @ [ModelGenerator (config s2), LogError policies_missing] @ later_stages E (config s2))"
    using register_finish_runs(2) [where s = ?s3 and E = E] by (simp add: s3)
  have all: "trace (snd (register_finish E None ?s3)) =
             trace s2 @ [ModelGenerator (config s2), LogError policies_missing] @ later_stages E (config s2)"
    if "fst (register_finish E None ?s3) = Inr ()"
    using register_finish_returns [OF that] by (simp add: s3)
  have completes: "fst (register_finish E None ?s3) = Inr ()" if "\<forall>tr ev. ext_call E tr ev = None"
    using that by (rule register_finish_completes)
  have none: "globalSchemas (snd (register_finish E None ?s3)) = None"
    by (simp add: register_finish_builds)
  show "(str_includes (message err) ''no such file'' \<longrightarrow>
        ?R = register_finish E None ?s3 \<and>
        globalSchemas (snd ?R) = None \<and>
        (\<forall>k. RestGenerateRoutes k \<in> set (trace (snd ?R)) \<longrightarrow> RestGenerateRoutes k \<in> set (trace s2)) \<and>
        length (trace s2) + 2 < length (trace (snd ?R)) \<and>
        prefix (trace (snd ?R))
          (trace s2 @ [ModelGenerator (config s2), LogError policies_missing] @ later_stages E (config s2)) \<and>
        (fst ?R = Inr () \<longrightarrow>
           trace (snd ?R) =
             trace s2 @ [ModelGenerator (config s2), LogError policies_missing] @
             later_stages E (config s2)) \<and>
        ((\<forall>tr ev. ext_call E tr ev = None) \<longrightarrow> fst ?R = Inr ())) \<and>
     (\<not> str_includes (message err) ''no such file'' \<longrightarrow>
        ?R = (Inl err, emit (ModelGenerator (config s2)) s2))"
  proof (cases "str_includes (message err) ''no such file''")
    case True
    show ?thesis
      unfolding swallow [OF True] using routes runs part all completes none True by blast
  next
    case False
    with propagate show ?thesis by simp
  qed
qed


text \<open>
  C3 on the freshly loaded module, for a build that fails with a missing directory and
  for one that fails to connect: in the first case \<^verbatim>\<open>register\<close> returns, and after the
  build and the error line it has registered the two plugins and generated the additional
  routes; in the second it throws the error of the build and the build is its last call.
\<close>

theorem register_build_failure_witness:
  "fst (register (failing_env ''ENOENT: no such file or directory, scandir /app/policies'')
          sample_server sample_options (init_state sample_config)) = Inr () \<and>
   globalSchemas (snd (register (failing_env ''ENOENT: no such file or directory, scandir /app/policies'')
          sample_server sample_options (init_state sample_config))) = None \<and>
   trace (snd (register (failing_env ''ENOENT: no such file or directory, scandir /app/policies'')
          sample_server sample_options (init_state sample_config))) =
     [ServerValidator Joi, ServerExt ''onRequest'', ServerMethod ''dbConnect'',
      LogActionStart ''Initializing Server'' JUndefined,
      ModelGenerator (JObj [(''loglevel'', JStr ''DEBUG''),
         (''mongo'', JObj [(''URI'', JStr ''mem://test''), (''defaultConnection'', JStr ''default'')])]),
      LogError policies_missing,
      RegisterSwagger (JObj [(''loglevel'', JStr ''DEBUG''),
         (''mongo'', JObj [(''URI'', JStr ''mem://test''), (''defaultConnection'', JStr ''default'')])]),
      LogInfo ''hapi-swagger plugin registered'',
      RegisterMrHorse (JStr ''/srv/node_modules/rest-hapi/policies''),
      LogInfo ''MrHorse plugin registered'',
      RestHelperFactory,
      ApiGenerator (JObj [(''loglevel'', JStr ''DEBUG''),
         (''mongo'', JObj [(''URI'', JStr ''mem://test''), (''defaultConnection'', JStr ''default'')])])] \<and>
   register (failing_env ''connect ECONNREFUSED'') sample_server sample_options (init_state sample_config) =
     (Inl (Error ''connect ECONNREFUSED''),
      emit (ModelGenerator (JObj [(''loglevel'', JStr ''DEBUG''),
         (''mongo'', JObj [(''URI'', JStr ''mem://test''), (''defaultConnection'', JStr ''default'')])]))
        (snd (register_setup (failing_env ''connect ECONNREFUSED'') sample_options
           (snd (register_validator (failing_env ''connect ECONNREFUSED'') sample_server
              (init_state sample_config))))))"
proof -
  let ?E = "failing_env ''ENOENT: no such file or directory, scandir /app/policies''"
  let ?F = "failing_env ''connect ECONNREFUSED''"
  let ?cfg = "JObj [(''loglevel'', JStr ''DEBUG''),
         (''mongo'', JObj [(''URI'', JStr ''mem://test''), (''defaultConnection'', JStr ''default'')])]"
  let ?s1 = "snd (register_validator ?E sample_server (init_state sample_config))"
  let ?s2 = "snd (register_setup ?E sample_options ?s1)"
  let ?t1 = "snd (register_validator ?F sample_server (init_state sample_config))"
  let ?t2 = "snd (register_setup ?F sample_options ?t1)"
  have v: "register_validator ?E sample_server (init_state sample_config) = (Inr (), ?s1)"
    and st: "register_setup ?E sample_options ?s1 = (Inr (), ?s2)"
    and s2: "config ?s2 = ?cfg"
      "trace ?s2 = [ServerValidator Joi, ServerExt ''onRequest'', ServerMethod ''dbConnect'',
                    LogActionStart ''Initializing Server'' JUndefined]"
    and fail: "modelGenerator ?E (trace ?s2) (config ?s2) =
               Inl (Error ''ENOENT: no such file or directory, scandir /app/policies'')"
    and quiet: "\<forall>tr ev. ext_call ?E tr ev = None"
    and flag: "\<not> modelsGenerated (init_state sample_config)"
    by (simp_all add: eval_defs2 prod_eq_iff)
  have later: "later_stages ?E ?cfg =
      [RegisterSwagger ?cfg, LogInfo ''hapi-swagger plugin registered'',
       RegisterMrHorse (JStr ''/srv/node_modules/rest-hapi/policies''),
       LogInfo ''MrHorse plugin registered'', RestHelperFactory, ApiGenerator ?cfg]"
    by (simp add: later_stages_def policyPath_def failing_env_def sample_env_def join2_def)
  have sig: "str_includes (message (Error ''ENOENT: no such file or directory, scandir /app/policies''))
               ''no such file''"
    by simp
  from register_build_failure [of "init_state sample_config" ?E sample_server ?s1 sample_options ?s2
         "Error ''ENOENT: no such file or directory, scandir /app/policies''"]
       flag v st fail sig quiet
  have a: "fst (register ?E sample_server sample_options (init_state sample_config)) = Inr ()"
    and b: "globalSchemas (snd (register ?E sample_server sample_options (init_state sample_config))) = None"
    and c: "trace (snd (register ?E sample_server sample_options (init_state sample_config))) =
            trace ?s2 @ [ModelGenerator (config ?s2), LogError policies_missing] @
            later_stages ?E (config ?s2)"
    by blast+
  have w: "register_validator ?F sample_server (init_state sample_config) = (Inr (), ?t1)"
    and wt: "register_setup ?F sample_options ?t1 = (Inr (), ?t2)"
    and t2: "config ?t2 = ?cfg"
    and fail2: "modelGenerator ?F (trace ?t2) (config ?t2) = Inl (Error ''connect ECONNREFUSED'')"
    by (simp_all add: eval_defs2 prod_eq_iff)
  have nosig: "\<not> str_includes (message (Error ''connect ECONNREFUSED'')) ''no such file''"
    by simp
  from register_build_failure [of "init_state sample_config" ?F sample_server ?t1 sample_options ?t2
         "Error ''connect ECONNREFUSED''"]
       flag w wt fail2 nosig
  have d: "register ?F sample_server sample_options (init_state sample_config) =
           (Inl (Error ''connect ECONNREFUSED''), emit (ModelGenerator (config ?t2)) ?t2)"
    by blast
  from a b c d show ?thesis by (simp add: s2 t2 later)
qed

section \<open>\<^verbatim>\<open>generateModels\<close> when the build fails\<close>

text \<open>
  C10. \<^verbatim>\<open>generateModels\<close> has set the flag when it calls the build, and nothing has left the
  module before. When the build throws, \<^verbatim>\<open>generateModels\<close> throws the same value and ends in
  the state in which it called the build: the flag stays set and the registry is the one
  stored before. A \<^verbatim>\<open>register\<close> that follows does not
  invoke the build: it runs its first stages and then goes on with that earlier registry.
\<close>

theorem generateModels_flag_survives_failure:
  "modelsGenerated (generateModels_begin s) \<and> trace (generateModels_begin s) = trace s \<and>
   (modelGenerator E (trace (generateModels_begin s)) (config (generateModels_begin s)) = Inl err \<longrightarrow>
      fst (generateModels E s) = Inl err \<and>
      snd (generateModels E s) =
        emit (ModelGenerator (config (generateModels_begin s))) (generateModels_begin s) \<and>
      modelsGenerated (snd (generateModels E s)) \<and>
      globalSchemas (snd (generateModels E s)) = globalSchemas s \<and>
      builds (snd (register E' srv options (snd (generateModels E s)))) =
        builds (snd (generateModels E s)) \<and>
      register E' srv options (snd (generateModels E s)) =
        and_then (register_validator E' srv (snd (generateModels E s)))
          (\<lambda>_ s1. and_then (register_setup E' options s1)
             (\<lambda>_ s2. register_finish E' (globalSchemas s) s2)))"
proof (intro conjI impI)
  show "modelsGenerated (generateModels_begin s)" "trace (generateModels_begin s) = trace s"
    by (simp_all add: generateModels_begin_facts)
next
  assume fail: "modelGenerator E (trace (generateModels_begin s)) (config (generateModels_begin s)) = Inl err"
  then show "fst (generateModels E s) = Inl err" by (simp add: generateModels_def)
  from fail show "snd (generateModels E s) =
        emit (ModelGenerator (config (generateModels_begin s))) (generateModels_begin s)"
    by (simp add: generateModels_def)
  show flag: "modelsGenerated (snd (generateModels E s))" by (rule generateModels_flag)
  from fail show reg: "globalSchemas (snd (generateModels E s)) = globalSchemas s"
    by (simp add: generateModels_def emit_def generateModels_begin_facts)
  from keeps_register_flag [OF flag, of E' srv options]
  show "builds (snd (register E' srv options (snd (generateModels E s)))) =
        builds (snd (generateModels E s))"
    by (simp add: keeps_def)
  from register_with_flag [OF flag, of E' srv options] reg
  show "register E' srv options (snd (generateModels E s)) =
        and_then (register_validator E' srv (snd (generateModels E s)))
          (\<lambda>_ s1. and_then (register_setup E' options s1)
             (\<lambda>_ s2. register_finish E' (globalSchemas s) s2))"
    by simp
qed

text \<open>
  C10 on the freshly loaded module: the build of \<^verbatim>\<open>generateModels\<close> fails, the following
  \<^verbatim>\<open>register\<close> completes with the initial empty registry and no further build.
\<close>

theorem generateModels_flag_survives_failure_witness:
  "fst (generateModels (failing_env ''connect ECONNREFUSED'') (init_state sample_config)) =
     Inl (Error ''connect ECONNREFUSED'') \<and>
   modelsGenerated (snd (generateModels (failing_env ''connect ECONNREFUSED'') (init_state sample_config))) \<and>
   fst (register sample_env sample_server sample_options
          (snd (generateModels (failing_env ''connect ECONNREFUSED'') (init_state sample_config)))) = Inr () \<and>
   globalSchemas (snd (register sample_env sample_server sample_options
          (snd (generateModels (failing_env ''connect ECONNREFUSED'') (init_state sample_config))))) = Some [] \<and>
   builds (snd (register sample_env sample_server sample_options
          (snd (generateModels (failing_env ''connect ECONNREFUSED'') (init_state sample_config))))) = 1"
  using generateModels_flag_survives_failure
          [of "init_state sample_config" "failing_env ''connect ECONNREFUSED''"
              "Error ''connect ECONNREFUSED''" sample_env sample_server sample_options]
  by (simp add: eval_defs2)

section \<open>\<^verbatim>\<open>getConnection\<close>\<close>

text \<open>
  C4, as the code has it. With a \<^verbatim>\<open>mongo\<close> section in the configuration, \<^verbatim>\<open>getConnection\<close>
  looks the connection up under the name passed, and under the fixed name \<^verbatim>\<open>default\<close> when
  the name is omitted; the configured default name only selects the error. Without a live
  connection under that name it throws \<^verbatim>\<open>Error("No database connections found.")\<close> when
  the name is the configured default and \<^verbatim>\<open>Error("Connection '<name>' does not exists.")\<close>
  otherwise. It never throws a \<^verbatim>\<open>TypeError\<close>, and being a function of the state only, it
  retries nothing.
\<close>

theorem getConnection_result:
  "defaultConnection s = Inr dflt \<longrightarrow>
     getConnection name0 r s =
       (if no_connection s (connections (requests s r) (to_string (default_arg name0 (JStr ''default''))))
        then (if default_arg name0 (JStr ''default'') = dflt
              then Inl (Error ''No database connections found.'')
              else Inl (Error (''Connection '' @ [CHR 0x27] @
                                to_string (default_arg name0 (JStr ''default'')) @ [CHR 0x27] @
                                '' does not exists.'')))
        else Inr (the (connections (requests s r) (to_string (default_arg name0 (JStr ''default''))))))
     \<and> (\<forall>m. getConnection name0 r s \<noteq> Inl (TypeError m))"
  by (auto simp: getConnection_def Let_def)


text \<open>
  C4 on examples: no connection under the configured default, no connection under another
  name, and a live connection.
\<close>

theorem getConnection_result_witness:
  "getConnection JUndefined 0 (registered sample_config) = Inl (Error ''No database connections found.'') \<and>
   getConnection (JStr ''secondary'') 0 (registered sample_config) =
     Inl (Error (''Connection '' @ [CHR 0x27] @ ''secondary'' @ [CHR 0x27] @ '' does not exists.'')) \<and>
   getConnection (JStr ''primary'') 0 primary_connected = Inr 1"
  using getConnection_result [of "registered sample_config" "JStr ''default''" JUndefined 0]
        getConnection_result [of "registered sample_config" "JStr ''default''" "JStr ''secondary''" 0]
        getConnection_result [of primary_connected "JStr ''primary''" "JStr ''primary''" 0]
  by (simp add: eval_req registered_sample primary_connected_fields)

text \<open>
  C4, as the specification states it, fails: with \<^verbatim>\<open>primary\<close> configured as the default
  connection and connected, \<^verbatim>\<open>getConnection\<close> with the name omitted does not resolve the
  configured default; it looks for \<^verbatim>\<open>default\<close> and throws. The message is not the one the
  specification gives either.
\<close>

theorem getConnection_omitted_name_not_configured_default:
  "defaultConnection primary_connected = Inr (JStr ''primary'') \<and>
   getConnection (JStr ''primary'') 0 primary_connected = Inr 1 \<and>
   getConnection JUndefined 0 primary_connected =
     Inl (Error (''Connection '' @ [CHR 0x27] @ ''default'' @ [CHR 0x27] @ '' does not exists.''))"
  by (simp add: eval_req primary_connected_fields)

section \<open>\<^verbatim>\<open>connect\<close> called twice\<close>

text \<open>
  The two paths of \<^verbatim>\<open>mongooseInit\<close>. With a live connection under the name, it logs one
  warning, returns the entry and changes nothing else. Without one, and when the driver
  connects, it returns the driver connection, and stores a new entry that holds it.
\<close>

lemma mongooseInit_skips:
  assumes "read_prop cfg ''options'' = Inr cfg_options"
    and "connections (requests s r) (to_string (get_prop cfg ''name'')) = Some a"
    and "entries s a = Some e" and "ce_connection e = Some h"
  shows "mongooseInit E cfg r s =
           (Inr a,
            emit (LogWarn (''Connection '' @ to_string (get_prop cfg ''name'') @
                           '' already exists. Skipping...''))
              (emit (LogActionStart ''Connecting to Database'' (omit cfg ''pass'')) s))"
  using assms by (simp add: mongooseInit_def Let_def no_connection_def emit_def)

lemma mongooseInit_connects:
  assumes "read_prop cfg ''options'' = Inr cfg_options"
    and "no_connection s (connections (requests s r) (to_string (get_prop cfg ''name'')))"
    and "fst (mongooseInit E cfg r s) = Inr a"
  shows "a = next_addr s"
    and "connections (requests (snd (mongooseInit E cfg r s)) r) (to_string (get_prop cfg ''name'')) =
           Some (Suc a)"
    and "map_option ce_connection (entries (snd (mongooseInit E cfg r s)) (Suc a)) = Some (Some a)"
  using assms
  by (auto simp: mongooseInit_def Let_def no_connection_def emit_def split: option.splits)

text \<open>
  C2 at a request that connects twice with no argument. The first call returns the driver
  connection (address 0), the second call the entry \<^verbatim>\<open>request.connections['default']\<close>
  (address 1), which holds that connection: two different objects. The second call logs
  one warning and leaves the entries as they are.
\<close>

theorem connect_twice_returns_two_objects:
  "fst (dbConnect sample_env JUndefined 0 (registered sample_config)) = Inr 0 \<and>
   fst (dbConnect sample_env JUndefined 0 default_connected) = Inr 1 \<and>
   map_option h_uri (handles default_connected 0) = Some (JStr ''mem://test'') \<and>
   map_option ce_connection (entries default_connected 1) = Some (Some 0) \<and>
   connections (requests default_connected 0) ''default'' = Some 1 \<and>
   entries (snd (dbConnect sample_env JUndefined 0 default_connected)) = entries default_connected \<and>
   warnings (snd (dbConnect sample_env JUndefined 0 default_connected)) = 1"
proof -
  have a: "fst (dbConnect sample_env JUndefined 0 (registered sample_config)) = Inr 0"
    by (simp add: eval_req registered_sample)
  have b: "fst (dbConnect sample_env JUndefined 0 default_connected) = Inr 1"
    by (simp add: eval_req default_connected_fields)
  have c: "map_option h_uri (handles default_connected 0) = Some (JStr ''mem://test'')"
    by (simp add: default_connected_def eval_req registered_sample)
  have d: "entries (snd (dbConnect sample_env JUndefined 0 default_connected)) = entries default_connected"
    by (simp add: eval_req default_connected_fields)
  have "warnings default_connected = 0"
    by (simp add: default_connected_def eval_req registered_sample warnings_def)
  then have e: "warnings (snd (dbConnect sample_env JUndefined 0 default_connected)) = 1"
    by (simp add: eval_req default_connected_fields warnings_def)
  from a b c d e show ?thesis by (simp add: default_connected_fields)
qed

section \<open>The merge of \<^verbatim>\<open>connect\<close> into the options\<close>

lemma extend_obj_other:
  "k \<notin> fst ` set src \<Longrightarrow> map_of (extend_obj t src) k = map_of t k"
  by (induction t src rule: extend_obj.induct) (auto simp: update_conv')

lemma extend_obj_leaf:
  "distinct (map fst src) \<Longrightarrow> map_of src k = Some v \<Longrightarrow> is_leaf v \<Longrightarrow>
   map_of (extend_obj t src) k = Some v"
proof (induction t src rule: extend_obj.induct)
  case (1 target)
  then show ?case by simp
next
  case (2 target k' c rest)
  then show ?case by (cases "k' = k") auto
next
  case (3 target k' rest)
  then show ?case by (cases "k' = k") auto
next
  case (4 target k' rest)
  then show ?case by (cases "k' = k") (auto simp: extend_obj_other update_conv' image_iff)
next
  case (5 target k' b rest)
  then show ?case by (cases "k' = k") (auto simp: extend_obj_other update_conv' image_iff)
next
  case (6 target k' n rest)
  then show ?case by (cases "k' = k") (auto simp: extend_obj_other update_conv' image_iff)
next
  case (7 target k' s rest)
  then show ?case by (cases "k' = k") (auto simp: extend_obj_other update_conv' image_iff)
qed

lemma plugin_config_mongooseInit:
  "plugin_config (snd (mongooseInit E cfg r s)) = plugin_config s"
  by (simp add: mongooseInit_def Let_def emit_def split: sum.splits option.splits)

lemma read_prop_obj:
  "read_prop pc k = Inr (JObj kvs) \<Longrightarrow> \<exists>ps. pc = JObj ps \<and> map_of ps k = Some (JObj kvs)"
  by (cases pc) (auto split: option.splits)

lemma merged_dbConfig_obj:
  "merged_dbConfig (JObj kvs) ov =
     JObj (extend_obj (extend_obj kvs [(''name'', JStr ''default'')]) (own_props (default_arg ov (JObj []))))"
  by (simp add: merged_dbConfig_def)

lemma dbConnect_obj:
  assumes "read_prop (plugin_config s) ''mongo'' = Inr (JObj kvs)"
  shows "dbConnect E ov r s =
           mongooseInit E (merged_dbConfig (JObj kvs) ov) r
             (s\<lparr>plugin_config := store_prop (plugin_config s) ''mongo'' (merged_dbConfig (JObj kvs) ov)\<rparr>)"
    and "read_prop (plugin_config (snd (dbConnect E ov r s))) ''mongo'' = Inr (merged_dbConfig (JObj kvs) ov)"
proof -
  from assms show eq: "dbConnect E ov r s =
           mongooseInit E (merged_dbConfig (JObj kvs) ov) r
             (s\<lparr>plugin_config := store_prop (plugin_config s) ''mongo'' (merged_dbConfig (JObj kvs) ov)\<rparr>)"
    by (simp add: dbConnect_def)
  from read_prop_obj [OF assms] obtain ps where "plugin_config s = JObj ps" by blast
  then show "read_prop (plugin_config (snd (dbConnect E ov r s))) ''mongo'' = Inr (merged_dbConfig (JObj kvs) ov)"
    unfolding eq plugin_config_mongooseInit
    by (simp add: update_conv' merged_dbConfig_obj)
qed

lemma merged_keeps_leaf:
  assumes "map_of kvs k = Some v" and "k \<noteq> ''name''" and "k \<notin> fst ` set (own_props ov)"
  shows "\<exists>kvs'. merged_dbConfig (JObj kvs) ov = JObj kvs' \<and> map_of kvs' k = Some v"
proof -
  have "k \<notin> fst ` set (own_props (default_arg ov (JObj [])))"
    using assms(3) by (simp add: default_arg_def)
  with assms(1,2) show ?thesis
    by (simp add: merged_dbConfig_obj extend_obj_other update_conv')
qed

lemma merged_takes_leaf:
  assumes "distinct (map fst o1)" and "map_of o1 k = Some v" and "is_leaf v"
  shows "\<exists>kvs'. merged_dbConfig (JObj kvs) (JObj o1) = JObj kvs' \<and> map_of kvs' k = Some v"
  using assms by (simp add: merged_dbConfig_obj default_arg_def extend_obj_leaf del: extend_obj.simps)

lemma connect_all_keeps_leaf:
  assumes "\<forall>c \<in> set calls. k \<notin> fst ` set (own_props (fst c))" and "k \<noteq> ''name''"
    and "read_prop (plugin_config s) ''mongo'' = Inr (JObj kvs)" and "map_of kvs k = Some v"
  shows "\<exists>kvs'. read_prop (plugin_config (connect_all E calls s)) ''mongo'' = Inr (JObj kvs') \<and>
                map_of kvs' k = Some v"
  using assms
proof (induction calls arbitrary: s kvs)
  case Nil
  then show ?case by simp
next
  case (Cons c calls)
  obtain ov r where c: "c = (ov, r)" by (cases c)
  from Cons.prems(1) c have nk: "k \<notin> fst ` set (own_props ov)" by simp
  from merged_keeps_leaf [OF Cons.prems(4) Cons.prems(2) nk] obtain kvs' where
    m: "merged_dbConfig (JObj kvs) ov = JObj kvs'" and v: "map_of kvs' k = Some v" by blast
  from dbConnect_obj(2) [OF Cons.prems(3), of E ov r] m
  have "read_prop (plugin_config (snd (dbConnect E ov r s))) ''mongo'' = Inr (JObj kvs')" by simp
  from Cons.IH [OF _ Cons.prems(2) this v] Cons.prems(1) c show ?case by simp
qed

text \<open>
  C9. When \<^verbatim>\<open>options.config.mongo\<close> is an object, \<^verbatim>\<open>connect\<close> passes to \<^verbatim>\<open>mongooseInit\<close>
  the result of merging the fallback \<^verbatim>\<open>{name: 'default'}\<close> and its argument into that
  object, and the object of the options holds that result afterwards, whatever the outcome of
  the call. A value of the argument that is neither \<^verbatim>\<open>undefined\<close> nor an object is in the
  merged parameters; and when its key is not \<^verbatim>\<open>name\<close>, it is still the value of that key in
  the shared object after any further \<^verbatim>\<open>connect\<close> calls, from any requests, whose arguments
  do not give that key: each such call resolves its parameters with it.
\<close>

theorem dbConnect_merges_in_place:
  "read_prop (plugin_config s) ''mongo'' = Inr (JObj kvs) \<longrightarrow>
     dbConnect E ov r s =
       mongooseInit E (merged_dbConfig (JObj kvs) ov) r
         (s\<lparr>plugin_config := store_prop (plugin_config s) ''mongo'' (merged_dbConfig (JObj kvs) ov)\<rparr>) \<and>
     read_prop (plugin_config (snd (dbConnect E ov r s))) ''mongo'' = Inr (merged_dbConfig (JObj kvs) ov) \<and>
     (ov = JObj o1 \<and> distinct (map fst o1) \<and> map_of o1 k = Some v \<and> is_leaf v \<longrightarrow>
        get_prop (merged_dbConfig (JObj kvs) ov) k = v \<and>
        (k \<noteq> ''name'' \<and> (\<forall>c \<in> set calls. k \<notin> fst ` set (own_props (fst c))) \<longrightarrow>
           (\<exists>kvs'. read_prop (plugin_config (connect_all E' calls (snd (dbConnect E ov r s)))) ''mongo'' =
                     Inr (JObj kvs') \<and> map_of kvs' k = Some v)))"
proof (intro impI conjI)
  assume mongo: "read_prop (plugin_config s) ''mongo'' = Inr (JObj kvs)"
  show "dbConnect E ov r s =
       mongooseInit E (merged_dbConfig (JObj kvs) ov) r
         (s\<lparr>plugin_config := store_prop (plugin_config s) ''mongo'' (merged_dbConfig (JObj kvs) ov)\<rparr>)"
    by (rule dbConnect_obj(1) [OF mongo])
  show after: "read_prop (plugin_config (snd (dbConnect E ov r s))) ''mongo'' = Inr (merged_dbConfig (JObj kvs) ov)"
    by (rule dbConnect_obj(2) [OF mongo])
  assume o1: "ov = JObj o1 \<and> distinct (map fst o1) \<and> map_of o1 k = Some v \<and> is_leaf v"
  then obtain kvs1 where m: "merged_dbConfig (JObj kvs) ov = JObj kvs1" and v: "map_of kvs1 k = Some v"
    using merged_takes_leaf [of o1 k v kvs] by blast
  then show "get_prop (merged_dbConfig (JObj kvs) ov) k = v" by simp
  assume later: "k \<noteq> ''name'' \<and> (\<forall>c \<in> set calls. k \<notin> fst ` set (own_props (fst c)))"
  from after m have "read_prop (plugin_config (snd (dbConnect E ov r s))) ''mongo'' = Inr (JObj kvs1)" by simp
  from connect_all_keeps_leaf [OF _ _ this v, of calls E'] later
  show "\<exists>kvs'. read_prop (plugin_config (connect_all E' calls (snd (dbConnect E ov r s)))) ''mongo'' =
                     Inr (JObj kvs') \<and> map_of kvs' k = Some v" by blast
qed

text \<open>
  C9 on an example: request 0 connects with another \<^verbatim>\<open>URI\<close>; request 1 then connects without
  argument, and the driver connection it gets (address 2) is one to that \<^verbatim>\<open>URI\<close>.
\<close>

theorem dbConnect_merges_in_place_witness:
  "get_prop (get_prop (plugin_config
       (connect_all sample_env [(JUndefined, 1)]
          (snd (dbConnect sample_env (JObj [(''URI'', JStr ''mongodb://other/db'')]) 0
                  (registered sample_config))))) ''mongo'') ''URI'' = JStr ''mongodb://other/db'' \<and>
   map_option h_uri (handles
       (connect_all sample_env [(JUndefined, 1)]
          (snd (dbConnect sample_env (JObj [(''URI'', JStr ''mongodb://other/db'')]) 0
                  (registered sample_config)))) 2) = Some (JStr ''mongodb://other/db'')"
proof -
  let ?s = "connect_all sample_env [(JUndefined, 1)]
          (snd (dbConnect sample_env (JObj [(''URI'', JStr ''mongodb://other/db'')]) 0
                  (registered sample_config)))"
  have m: "read_prop (plugin_config (registered sample_config)) ''mongo'' =
             Inr (JObj [(''URI'', JStr ''mem://test'')])"
    by (simp add: registered_sample)
  let ?G = "\<exists>kvs'. read_prop (plugin_config ?s) ''mongo'' = Inr (JObj kvs') \<and>
               map_of kvs' ''URI'' = Some (JStr ''mongodb://other/db'')"
  have D: "JObj [(''URI'', JStr ''mongodb://other/db'')] = JObj [(''URI'', JStr ''mongodb://other/db'')] \<and>
           distinct (map fst [(''URI'', JStr ''mongodb://other/db'')]) \<and>
           map_of [(''URI'', JStr ''mongodb://other/db'')] ''URI'' = Some (JStr ''mongodb://other/db'') \<and>
           is_leaf (JStr ''mongodb://other/db'')"
    by simp
  have F: "''URI'' \<noteq> ''name'' \<and>
           (\<forall>c \<in> set [(JUndefined, 1::nat)]. ''URI'' \<notin> fst ` set (own_props (fst c)))"
    by simp
  from dbConnect_merges_in_place
          [of "registered sample_config" "[(''URI'', JStr ''mem://test'')]" sample_env
              "JObj [(''URI'', JStr ''mongodb://other/db'')]" 0
              "[(''URI'', JStr ''mongodb://other/db'')]" "''URI''" "JStr ''mongodb://other/db''"
              "[(JUndefined, 1)]" sample_env] m D F
  have ?G by blast
  then obtain kvs' where "read_prop (plugin_config ?s) ''mongo'' = Inr (JObj kvs')"
    and "map_of kvs' ''URI'' = Some (JStr ''mongodb://other/db'')" by blast
  then have c1: "get_prop (get_prop (plugin_config ?s) ''mongo'') ''URI'' = JStr ''mongodb://other/db''"
    by (cases "plugin_config ?s") (auto split: option.splits)
  have c2: "map_option h_uri (handles ?s 2) = Some (JStr ''mongodb://other/db'')"
    by (simp add: eval_req registered_sample)
  from c1 c2 show ?thesis by simp
qed

section \<open>\<^verbatim>\<open>getModel\<close> called twice\<close>

text \<open>
  For a schema \<open>name\<close> of the registry that \<^verbatim>\<open>Object.prototype\<close> does not provide, and a
  live connection: \<^verbatim>\<open>getModel\<close> returns a model \<open>m\<close>; a second call returns the same \<open>m\<close>
  and leaves the state as it is, so it creates nothing; the model cache of the connection
  maps \<open>name\<close> to \<open>m\<close>; and the first call has called the driver's \<^verbatim>\<open>model\<close> once when the
  cache had no \<open>name\<close>, and not at all otherwise.
\<close>

lemma getModel_twice_own_name:
  "defaultConnection s = Inr dflt \<and> getConnection (default_arg cn dflt) r s = Inr a \<and>
   inherited s name = None \<and> globalSchemas s = Some reg \<and> map_of reg name = Some sd \<longrightarrow>
     (\<exists>m. fst (getModel name cn r s) = Inr (ModelAt m) \<and>
          getModel name cn r (snd (getModel name cn r s)) = (Inr (ModelAt m), snd (getModel name cn r s)) \<and>
          (\<exists>e1. entries (snd (getModel name cn r s)) a = Some e1 \<and> ce_models e1 name = Some m) \<and>
          trace (snd (getModel name cn r s)) = trace s @ creation_events s a name sd)"
proof (intro impI, elim conjE)
  assume d: "defaultConnection s = Inr dflt"
    and conn: "getConnection (default_arg cn dflt) r s = Inr a"
    and inh: "inherited s name = None"
    and reg: "globalSchemas s = Some reg" "map_of reg name = Some sd"
  let ?c = "default_arg cn dflt"
  from spawnModel_present [OF conn inh reg] obtain m s1 e1 where
    sp: "spawnModel name ?c r s = (Inr (ModelAt m), s1)" and
    fr: "config s1 = config s" "requests s1 = requests s" and
    live: "\<forall>a'. map_option ce_connection (entries s1 a') = map_option ce_connection (entries s a')" and
    e1: "entries s1 a = Some e1" "ce_models e1 name = Some m" and
    tr: "trace s1 = trace s @ creation_events s a name sd"
    by (elim exE conjE)
  let ?s2 = "if ?c = dflt then assign_with (ModelAt m) name r s1 else s1"
  from d fr defaultConnection_cong [of s1 s] have d1: "defaultConnection s1 = Inr dflt" by simp
  have first: "getModel name cn r s = (Inr (ModelAt m), ?s2)"
    using sp d1 by (simp add: getModel_resolved [OF d])
  have d2: "defaultConnection ?s2 = Inr dflt"
    using d1 defaultConnection_cong [of "assign_with (ModelAt m) name r s1" s1]
    by (simp add: assign_with_frame)
  have "getConnection ?c r ?s2 = getConnection ?c r s"
  proof (rule getConnection_cong)
    show "config ?s2 = config s" by (simp add: assign_with_frame fr)
    show "requests ?s2 = requests s" by (simp add: assign_with_frame fr)
    show "map_option ce_connection (entries ?s2 a') = map_option ce_connection (entries s a')" for a'
      using live by (simp add: assign_with_frame)
  qed
  with conn have conn2: "getConnection ?c r ?s2 = Inr a" by simp
  have e2: "entries ?s2 a = Some e1" using e1 by (simp add: assign_with_frame)
  from spawnModel_cached [OF conn2 e2 e1(2)] have sp2: "spawnModel name ?c r ?s2 = (Inr (ModelAt m), ?s2)" .
  have second: "getModel name cn r ?s2 = (Inr (ModelAt m), ?s2)"
    using sp2 d2 by (simp add: getModel_resolved [OF d2] assign_with_idem)
  have tr2: "trace ?s2 = trace s @ creation_events s a name sd"
    using tr by (simp add: assign_with_frame)
  show "\<exists>m. fst (getModel name cn r s) = Inr (ModelAt m) \<and>
          getModel name cn r (snd (getModel name cn r s)) = (Inr (ModelAt m), snd (getModel name cn r s)) \<and>
          (\<exists>e1. entries (snd (getModel name cn r s)) a = Some e1 \<and> ce_models e1 name = Some m) \<and>
          trace (snd (getModel name cn r s)) = trace s @ creation_events s a name sd"
    unfolding first snd_conv fst_conv second
    using e2 e1(2) tr2 by blast
qed

text \<open>
  For a \<open>name\<close> that the model cache inherits from \<^verbatim>\<open>Object.prototype\<close>, and a live
  connection: \<^verbatim>\<open>getModel\<close> returns the inherited object, the driver is not called, and the
  models and the model caches are as they were, whatever the registry holds.
\<close>

lemma getModel_inherited_name:
  assumes d: "defaultConnection s = Inr dflt"
    and conn: "getConnection (default_arg cn dflt) r s = Inr a"
    and e: "entries s a = Some e" and nc: "ce_models e name = None"
    and inh: "inherited s name = Some obj"
  shows "fst (getModel name cn r s) = Inr obj \<and>
         trace (snd (getModel name cn r s)) = trace s \<and>
         models (snd (getModel name cn r s)) = models s \<and>
         entries (snd (getModel name cn r s)) = entries s"
proof -
  from inh have "\<forall>a. obj \<noteq> ModelAt a" using inherited_not_model [of s name] by auto
  then have "models (assign_with obj name r s) = models s" by (rule assign_with_other(1))
  with spawnModel_inherited [OF conn e nc inh] d show ?thesis
    by (simp add: getModel_resolved [OF d] assign_with_frame)
qed

lemma shadow_connected_fields:
  "config shadow_connected =
     JObj [(''loglevel'', JStr ''DEBUG''),
           (''mongo'', JObj [(''URI'', JStr ''mem://test''), (''defaultConnection'', JStr ''default'')])]"
  "globalSchemas shadow_connected = Some [(''A'', SchemaDef 1), (''constructor'', SchemaDef 3)]"
  "connections (requests shadow_connected 0) = [''default'' \<mapsto> 1]"
  "entries shadow_connected = [1 \<mapsto> \<lparr>ce_name = JStr ''default'', ce_models = Map.empty, ce_connection = Some 0\<rparr>]"
  "models shadow_connected = Map.empty"
  "next_addr shadow_connected = 2"
  by (simp_all add: shadow_connected_def shadow_env_def onRequest_def eval_defs dbConnect_def
      mongooseInit_def merged_dbConfig_def default_arg_def no_connection_def)

text \<open>
  C6. The claim fails for a schema whose name \<^verbatim>\<open>Object.prototype\<close> provides. Example: the
  registry holds the schemas \<open>A\<close> and \<^verbatim>\<open>constructor\<close>, and request 0 has a live default
  connection (the entry at address 1). Then \<^verbatim>\<open>getModel('constructor')\<close> returns the function
  \<^verbatim>\<open>Object\<close>, which is not a bound model: the driver is not called (the trace is unchanged),
  no model exists in the store and the model cache of the connection holds nothing under
  that name, neither after the first call nor after the second; while for \<open>A\<close> the model is
  created (at address 2) and cached.
\<close>

theorem getModel_shadowed_schema_name:
  "globalSchemas shadow_connected = Some [(''A'', SchemaDef 1), (''constructor'', SchemaDef 3)] \<and>
   getConnection JUndefined 0 shadow_connected = Inr 1 \<and>
   fst (getModel ''constructor'' JUndefined 0 shadow_connected) = Inr (Member ''constructor'') \<and>
   trace (snd (getModel ''constructor'' JUndefined 0 shadow_connected)) = trace shadow_connected \<and>
   models (snd (getModel ''constructor'' JUndefined 0 shadow_connected)) = Map.empty \<and>
   entries (snd (getModel ''constructor'' JUndefined 0 shadow_connected)) 1 =
     Some \<lparr>ce_name = JStr ''default'', ce_models = Map.empty, ce_connection = Some 0\<rparr> \<and>
   getModel ''constructor'' JUndefined 0 (snd (getModel ''constructor'' JUndefined 0 shadow_connected)) =
     (Inr (Member ''constructor''), snd (getModel ''constructor'' JUndefined 0 shadow_connected)) \<and>
   fst (getModel ''A'' JUndefined 0 shadow_connected) = Inr (ModelAt 2) \<and>
   entries (snd (getModel ''A'' JUndefined 0 shadow_connected)) 1 =
     Some \<lparr>ce_name = JStr ''default'', ce_models = [''A'' \<mapsto> 2], ce_connection = Some 0\<rparr>"
proof -
  have "getModel ''constructor'' JUndefined 0 shadow_connected =
          (Inr (Member ''constructor''),
           shadow_connected\<lparr>function_with := (function_with shadow_connected)(Member ''constructor'' \<mapsto> (''constructor'', 0))\<rparr>)"
    by (simp add: eval_req eval_inherit shadow_connected_fields)
  moreover have "getModel ''constructor'' JUndefined 0
          (shadow_connected\<lparr>function_with := (function_with shadow_connected)(Member ''constructor'' \<mapsto> (''constructor'', 0))\<rparr>) =
          (Inr (Member ''constructor''),
           shadow_connected\<lparr>function_with := (function_with shadow_connected)(Member ''constructor'' \<mapsto> (''constructor'', 0))\<rparr>)"
    by (simp add: eval_req eval_inherit shadow_connected_fields)
  moreover have "getConnection JUndefined 0 shadow_connected = Inr 1"
    by (simp add: eval_req shadow_connected_fields)
  moreover have "fst (getModel ''A'' JUndefined 0 shadow_connected) = Inr (ModelAt 2)"
    "entries (snd (getModel ''A'' JUndefined 0 shadow_connected)) 1 =
       Some \<lparr>ce_name = JStr ''default'', ce_models = [''A'' \<mapsto> 2], ce_connection = Some 0\<rparr>"
    by (simp_all add: eval_req eval_inherit shadow_connected_fields)
  ultimately show ?thesis by (simp add: shadow_connected_fields)
qed

section \<open>\<^verbatim>\<open>getModel\<close> for a schema that is not registered\<close>

text \<open>
  C7, as the code has it. Let the connection be live, at the entry \<open>e\<close>. When \<open>name\<close> is
  neither an own property of the model cache of \<open>e\<close> nor inherited from
  \<^verbatim>\<open>Object.prototype\<close>, and is absent from the registry (or the registry is \<^verbatim>\<open>undefined\<close>),
  \<^verbatim>\<open>getModel\<close> throws the \<^verbatim>\<open>TypeError\<close> of reading the schema of \<open>name\<close>, and the state is
  unchanged: the driver is not called, no model is created and nothing is added to the
  cache. A \<open>name\<close> that the cache holds is answered from the cache, whatever the
  registry holds. (What happens for a \<open>name\<close> inherited from \<^verbatim>\<open>Object.prototype\<close> is the
  subject of C6.)
\<close>

theorem getModel_unknown_schema:
  "defaultConnection s = Inr dflt \<and> getConnection (default_arg cn dflt) r s = Inr a \<and>
   entries s a = Some e \<longrightarrow>
     (ce_models e name = None \<and> inherited s name = None \<and>
      (\<forall>reg. globalSchemas s = Some reg \<longrightarrow> map_of reg name = None) \<longrightarrow>
        (\<exists>msg. getModel name cn r s = (Inl (TypeError msg), s))) \<and>
     (\<forall>m. ce_models e name = Some m \<longrightarrow> fst (getModel name cn r s) = Inr (ModelAt m))"
proof (intro impI, elim conjE)
  assume d: "defaultConnection s = Inr dflt"
    and conn: "getConnection (default_arg cn dflt) r s = Inr a" and e: "entries s a = Some e"
  have res: "fst (getModel name cn r s) = Inr obj"
    if "spawnModel name (default_arg cn dflt) r s = (Inr obj, s)" for obj
    using that d by (simp add: getModel_resolved [OF d])
  have 1: "\<exists>msg. getModel name cn r s = (Inl (TypeError msg), s)"
    if "ce_models e name = None \<and> inherited s name = None \<and>
        (\<forall>reg. globalSchemas s = Some reg \<longrightarrow> map_of reg name = None)"
    using that getModel_unknown [OF d conn e] by blast
  have 2: "fst (getModel name cn r s) = Inr (ModelAt m)" if "ce_models e name = Some m" for m
    using spawnModel_cached [OF conn e that] by (rule res)
  from 1 2 show "(ce_models e name = None \<and> inherited s name = None \<and>
      (\<forall>reg. globalSchemas s = Some reg \<longrightarrow> map_of reg name = None) \<longrightarrow>
        (\<exists>msg. getModel name cn r s = (Inl (TypeError msg), s))) \<and>
     (\<forall>m. ce_models e name = Some m \<longrightarrow> fst (getModel name cn r s) = Inr (ModelAt m))"
    by blast
qed

text \<open>
  C7 on the example state, for a schema \<open>C\<close> that is neither registered nor cached: the
  call throws and the state is unchanged. And for the schema \<open>A\<close>, once it is cached: the
  call returns the cached model.
\<close>

theorem getModel_unknown_schema_witness:
  "getModel ''C'' JUndefined 0 default_connected = (Inl (TypeError ''Schema''), default_connected) \<and>
   fst (getModel ''A'' JUndefined 0 (snd (getModel ''A'' JUndefined 0 default_connected))) =
     Inr (ModelAt 2)"
proof -
  let ?s = "snd (getModel ''A'' JUndefined 0 default_connected)"
  have "defaultConnection ?s = Inr (JStr ''default'')"
    and "getConnection (default_arg JUndefined (JStr ''default'')) 0 ?s = Inr 1"
    and "entries ?s 1 =
      Some \<lparr>ce_name = JStr ''default'', ce_models = [''A'' \<mapsto> 2], ce_connection = Some 0\<rparr>"
    by (simp_all add: eval_req eval_inherit default_connected_fields)
  with getModel_unknown_schema [of ?s "JStr ''default''" JUndefined 0 1
        "\<lparr>ce_name = JStr ''default'', ce_models = [''A'' \<mapsto> 2], ce_connection = Some 0\<rparr>" "''A''"]
  have cached: "fst (getModel ''A'' JUndefined 0 ?s) = Inr (ModelAt 2)"
    by simp
  have "defaultConnection default_connected = Inr (JStr ''default'')"
    by (simp add: defaultConnection_def default_connected_fields)
  moreover have "getConnection (default_arg JUndefined (JStr ''default'')) 0 default_connected = Inr 1"
    by (simp add: eval_req default_connected_fields)
  moreover have "entries default_connected 1 =
      Some \<lparr>ce_name = JStr ''default'', ce_models = Map.empty, ce_connection = Some 0\<rparr>"
    by (simp add: default_connected_fields)
  moreover have "inherited default_connected ''C'' = None"
    by (simp add: eval_inherit)
  moreover have "\<forall>reg. globalSchemas default_connected = Some reg \<longrightarrow> map_of reg ''C'' = None"
    by (simp add: default_connected_fields)
  ultimately have "\<exists>msg. getModel ''C'' JUndefined 0 default_connected = (Inl (TypeError msg), default_connected)"
    using getModel_unknown_schema [of default_connected "JStr ''default''" JUndefined 0 1
        "\<lparr>ce_name = JStr ''default'', ce_models = Map.empty, ce_connection = Some 0\<rparr>" "''C''"]
    by simp
  moreover have "fst (getModel ''C'' JUndefined 0 default_connected) = Inl (TypeError ''Schema'')"
    by (simp add: eval_req eval_inherit default_connected_fields)
  ultimately show ?thesis using cached by auto
qed

lemma regenerated_fields:
  "config regenerated =
     JObj [(''loglevel'', JStr ''DEBUG''),
           (''mongo'', JObj [(''URI'', JStr ''mem://test''), (''defaultConnection'', JStr ''default'')])]"
  "globalSchemas regenerated = Some [(''B'', SchemaDef 2)]"
  "connections (requests regenerated 0) = [''default'' \<mapsto> 1]"
  "entries regenerated =
     [1 \<mapsto> \<lparr>ce_name = JStr ''default'', ce_models = [''A'' \<mapsto> 2], ce_connection = Some 0\<rparr>]"
  by (simp_all add: regenerated_def only_b_env_def generateModels_def generateModels_begin_def
      generateModels_then_def getLogger_def eval_req eval_inherit default_connected_fields)

text \<open>
  C7, as the specification states it, fails: a schema absent from the registry is not
  always refused. Example: request 0 has resolved the model \<open>A\<close> on its default connection,
  and \<^verbatim>\<open>generateModels\<close> has then replaced the registry by one that holds \<open>B\<close> only. \<open>A\<close> is absent from the registry and the
  connection is live, yet \<^verbatim>\<open>getModel('A')\<close> returns the model that the connection cached (at
  address 2) and throws nothing: the cache is read before the registry.
\<close>

theorem getModel_cached_schema_not_registered:
  "globalSchemas regenerated = Some [(''B'', SchemaDef 2)] \<and>
   getConnection JUndefined 0 regenerated = Inr 1 \<and>
   fst (getModel ''A'' JUndefined 0 regenerated) = Inr (ModelAt 2)"
  by (simp add: eval_req eval_inherit regenerated_fields)

section \<open>The \<^verbatim>\<open>with\<close> capability\<close>






end
